theory Spec2Isabelle
  imports Main "HOL-Library.AList"
begin

section \<open>The list-address pattern \<open>lre\<close>\<close>

text \<open>
  \<^verbatim>\<open>lre\<close> is compiled with \<^verbatim>\<open>re.VERBOSE | re.IGNORECASE\<close>:
  \<^verbatim>\<open>^(?P<listname>[^+@]+?)(?:-(?P<subq>admin|bounces|...|unsubscribe))?[+@]\<close>.
  Strings are lists of 8-bit characters; in that range a letter of the pattern matches
  exactly its two ASCII cases, which is what \<open>lower_char\<close> folds.
\<close>

definition lower_char :: "char \<Rightarrow> char" where
  "lower_char c =
     (case map_of (zip ''ABCDEFGHIJKLMNOPQRSTUVWXYZ'' ''abcdefghijklmnopqrstuvwxyz'') c of
        Some d \<Rightarrow> d
      | None \<Rightarrow> c)"

definition lower_str :: "string \<Rightarrow> string" where
  "lower_str s = map lower_char s"

text \<open>The character class \<^verbatim>\<open>[+@]\<close>.\<close>

definition is_delim :: "char \<Rightarrow> bool" where
  "is_delim c = (c = CHR ''+'' \<or> c = CHR ''@'')"

text \<open>The alternatives of the group \<^verbatim>\<open>subq\<close>, in the order the pattern lists them.\<close>

definition subq_tokens :: "string list" where
  "subq_tokens = [''admin'', ''bounces'', ''confirm'', ''join'', ''leave'', ''owner'',
                  ''request'', ''subscribe'', ''unsubscribe'']"

text \<open>A literal of the pattern matched at the head of the input, ignoring case.\<close>

definition match_literal :: "string \<Rightarrow> string \<Rightarrow> bool" where
  "match_literal tok s =
     (length tok \<le> length s \<and> lower_str (take (length tok) s) = lower_str tok)"

text \<open>
  The alternation followed by \<^verbatim>\<open>[+@]\<close>: the alternatives are tried in order and
  one is kept only if the delimiter follows it. The group captures the input text.
\<close>

fun match_alternatives :: "string list \<Rightarrow> string \<Rightarrow> string option" where
  "match_alternatives [] s = None"
| "match_alternatives (tok # toks) s =
     (if match_literal tok s \<and>
         (case drop (length tok) s of [] \<Rightarrow> False | c # _ \<Rightarrow> is_delim c)
      then Some (take (length tok) s)
      else match_alternatives toks s)"

text \<open>
  What follows the list name: \<^verbatim>\<open>(?:-(?P<subq>...))?[+@]\<close>. The optional group is greedy,
  so it is tried first; without it the delimiter must come at once.
\<close>

definition match_tail :: "string \<Rightarrow> string option option" where
  "match_tail s =
     (case s of
        [] \<Rightarrow> None
      | c # r \<Rightarrow>
          (case (if c = CHR ''-'' then match_alternatives subq_tokens r else None) of
             Some t \<Rightarrow> Some (Some t)
           | None \<Rightarrow> if is_delim c then Some None else None))"

text \<open>
  \<^verbatim>\<open>[^+@]+?\<close> is not greedy: with the characters in \<open>acc\<close> consumed, the rest of the
  pattern is tried first, and one more character is consumed only if that fails.
\<close>

fun match_listname :: "string \<Rightarrow> string \<Rightarrow> (string \<times> string option) option" where
  "match_listname acc [] = None"
| "match_listname acc (c # r) =
     (case match_tail (c # r) of
        Some subq \<Rightarrow> Some (acc, subq)
      | None \<Rightarrow> if is_delim c then None else match_listname (acc @ [c]) r)"

text \<open>\<^verbatim>\<open>lre.match(to)\<close> with \<^verbatim>\<open>mo.group('listname', 'subq')\<close>; \<open>None\<close> is no match.\<close>

definition lre_match :: "string \<Rightarrow> (string \<times> string option) option" where
  "lre_match s =
     (case s of
        [] \<Rightarrow> None
      | c # r \<Rightarrow> if is_delim c then None else match_listname [c] r)"

section \<open>Messages and the recipient router\<close>

text \<open>
  A parsed message is the list of its header fields in the order of the file.
  \<^verbatim>\<open>msg.get_all(name, [])\<close> gives the values of the fields of that name, in order, the
  name compared without case.
\<close>

type_synonym message = "(string \<times> string) list"

definition get_all :: "message \<Rightarrow> string \<Rightarrow> string list" where
  "get_all msg name = map snd (filter (\<lambda>kv. lower_str (fst kv) = lower_str name) msg)"

text \<open>Lines 150-152: the values of the three headers, appended in that order.\<close>

definition header_vals :: "message \<Rightarrow> string list" where
  "header_vals msg =
     get_all msg ''delivered-to'' @ get_all msg ''envelope-to'' @ get_all msg ''apparently-to''"

text \<open>
  Lines 154-171, the \<^verbatim>\<open>for field in vals: ... else: ...\<close> loop. \<open>parseaddr\<close> stands for
  \<^verbatim>\<open>lambda field: email.utils.parseaddr(field)[1]\<close>, a function of the standard
  library. \<open>None\<close> is the \<^verbatim>\<open>else\<close> branch of the loop (no \<^verbatim>\<open>break\<close>).
\<close>

fun route :: "(string \<Rightarrow> string) \<Rightarrow> string list \<Rightarrow> string list \<Rightarrow> (string \<times> string option) option" where
  "route parseaddr listnames [] = None"
| "route parseaddr listnames (field # vals) =
     (let to = parseaddr field in
      if to = [] then route parseaddr listnames vals
      else (case lre_match to of
              None \<Rightarrow> route parseaddr listnames vals
            | Some (listname, subq) \<Rightarrow>
                if listname \<in> set listnames then Some (listname, subq)
                else route parseaddr listnames vals))"

section \<open>The destination selector\<close>

text \<open>Values stored in the metadata dictionary \<^verbatim>\<open>msgdata\<close>.\<close>

datatype mvalue = VInt int | VStr string | VPipeline "string list"

type_synonym msgdata = "string \<rightharpoonup> mvalue"

text \<open>
  The constants of \<^verbatim>\<open>mm_cfg\<close> the runner reads, and the value of
  \<^verbatim>\<open>Utils.get_site_email(extra='bounces')\<close>.
\<close>

record config =
  MAILDIR_DIR :: string
  BOUNCEQUEUE_DIR :: string
  CMDQUEUE_DIR :: string
  INQUEUE_DIR :: string
  OWNER_PIPELINE :: "string list"
  site_bounces :: string

text \<open>
  Lines 174-202. A switchboard is named by its queue directory. \<open>None\<close> is the last
  \<^verbatim>\<open>else\<close> (unknown sub-queue); the branches are in the order of the source.
\<close>

definition select :: "config \<Rightarrow> string \<Rightarrow> string option \<Rightarrow> (string \<times> msgdata) option" where
  "select cfg listname subq =
     (let msgdata = [''listname'' \<mapsto> VStr listname] in
      if subq \<in> {Some ''bounces'', Some ''admin''} then
        Some (BOUNCEQUEUE_DIR cfg, msgdata)
      else if subq = Some ''confirm'' then
        Some (CMDQUEUE_DIR cfg, msgdata(''toconfirm'' \<mapsto> VInt 1))
      else if subq \<in> {Some ''join'', Some ''subscribe''} then
        Some (CMDQUEUE_DIR cfg, msgdata(''tojoin'' \<mapsto> VInt 1))
      else if subq \<in> {Some ''leave'', Some ''unsubscribe''} then
        Some (CMDQUEUE_DIR cfg, msgdata(''toleave'' \<mapsto> VInt 1))
      else if subq = Some ''owner'' then
        Some (INQUEUE_DIR cfg,
              msgdata(''toowner'' \<mapsto> VInt 1,
                      ''envsender'' \<mapsto> VStr (site_bounces cfg),
                      ''pipeline'' \<mapsto> VPipeline (OWNER_PIPELINE cfg)))
      else if subq = None then
        Some (INQUEUE_DIR cfg, msgdata(''tolist'' \<mapsto> VInt 1))
      else if subq = Some ''request'' then
        Some (CMDQUEUE_DIR cfg, msgdata(''torequest'' \<mapsto> VInt 1))
      else None)"

section \<open>The world the runner acts on\<close>

text \<open>
  A path is \<^verbatim>\<open>os.path.join(directory, entry)\<close>, kept as the pair it is joined from:
  every path the runner hands to the operating system is built that way from a directory
  and a name that \<^verbatim>\<open>os.listdir\<close> returned.
\<close>

type_synonym path = "string \<times> string"

definition os_path_join :: "string \<Rightarrow> string \<Rightarrow> path" where
  "os_path_join d f = (d, f)"

text \<open>
  The string \<^verbatim>\<open>os.path.join(a, b)\<close>: \<open>b\<close> alone when it is absolute, no separator
  added when \<open>a\<close> is empty or ends with one.
\<close>

definition os_path_join_str :: "string \<Rightarrow> string \<Rightarrow> string" where
  "os_path_join_str a b =
     (if b \<noteq> [] \<and> hd b = CHR ''/'' then b
      else if a = [] \<or> last a = CHR ''/'' then a @ b
      else a @ ''/'' @ b)"

datatype errno = ENOENT | EOTHER nat

text \<open>The exceptions below \<^verbatim>\<open>Exception\<close>: \<^verbatim>\<open>OSError\<close> with its errno, and any other.\<close>

datatype exn = OSError errno | OtherError string

datatype logarg = S string | E exn | Traceback exn

text \<open>A \<^verbatim>\<open>syslog\<close> call: the log name, the format string and its arguments.\<close>

type_synonym log_entry = "string \<times> string \<times> logarg list"

text \<open>
  The calls the runner makes to the operating system and to the queue layer.
\<close>

datatype call =
    Listdir string
  | Rename path path
  | Open path
  | Unlink path
  | Makedirs string
  | Enqueue string
  | RunnerInit

text \<open>
  The directories that exist, each with its entries (name and file content) in the order
  \<^verbatim>\<open>os.listdir\<close> reports them; what has been enqueued on the switchboards; the log;
  and the calls made so far, oldest first.
\<close>

record world =
  dirs :: "string \<rightharpoonup> (string \<times> string) list"
  queues :: "(string \<times> message \<times> msgdata) list"
  log :: "log_entry list"
  calls :: "call list"

text \<open>
  What the runner is given: the configuration, \<^verbatim>\<open>Utils.list_names()\<close>, the two
  library functions (address extraction and message parsing), and the failures of the
  environment. \<open>os_fault t c = Some n\<close> makes the system call \<open>c\<close>, made after \<open>t\<close> calls,
  fail with an errno other than \<^verbatim>\<open>ENOENT\<close>; \<^verbatim>\<open>ENOENT\<close> itself comes from the state
  of the directories. \<open>lib_fault\<close> is the same for \<^verbatim>\<open>Runner.__init__\<close> and for
  \<^verbatim>\<open>get_switchboard(dir).enqueue\<close>, with any exception.
\<close>

record env =
  cfg :: config
  list_names :: "string list"
  parseaddr :: "string \<Rightarrow> string"
  message_from_binary_file :: "string \<Rightarrow> exn + message"
  os_fault :: "nat \<Rightarrow> call \<Rightarrow> nat option"
  lib_fault :: "nat \<Rightarrow> call \<Rightarrow> exn option"

definition clock :: "world \<Rightarrow> nat" where
  "clock w = length (calls w)"

definition tick :: "call \<Rightarrow> world \<Rightarrow> world" where
  "tick c w = w\<lparr>calls := calls w @ [c]\<rparr>"

definition syslog :: "string \<Rightarrow> string \<Rightarrow> logarg list \<Rightarrow> world \<Rightarrow> world" where
  "syslog name fmt args w = w\<lparr>log := log w @ [(name, fmt, args)]\<rparr>"

text \<open>The file at a path, if the directory and the entry exist.\<close>

definition lookup_file :: "world \<Rightarrow> path \<Rightarrow> string option" where
  "lookup_file w p = (case dirs w (fst p) of None \<Rightarrow> None | Some es \<Rightarrow> map_of es (snd p))"

text \<open>\<^verbatim>\<open>os.path.exists\<close>, asked only about the two directories of the maildir.\<close>

definition os_path_exists :: "world \<Rightarrow> string \<Rightarrow> bool" where
  "os_path_exists w d = (dirs w d \<noteq> None)"

text \<open>\<^verbatim>\<open>os.makedirs\<close>: errno 17 (\<^verbatim>\<open>EEXIST\<close>) when the directory is there already.\<close>

definition os_makedirs :: "env \<Rightarrow> string \<Rightarrow> world \<Rightarrow> errno option \<times> world" where
  "os_makedirs ev d w =
     (case os_fault ev (clock w) (Makedirs d) of
        Some n \<Rightarrow> (Some (EOTHER n), tick (Makedirs d) w)
      | None \<Rightarrow>
          (case dirs w d of
             Some es \<Rightarrow> (Some (EOTHER 17), tick (Makedirs d) w)
           | None \<Rightarrow> (None, tick (Makedirs d) (w\<lparr>dirs := (dirs w)(d \<mapsto> [])\<rparr>))))"

definition os_listdir :: "env \<Rightarrow> string \<Rightarrow> world \<Rightarrow> (errno + string list) \<times> world" where
  "os_listdir ev d w =
     (case os_fault ev (clock w) (Listdir d) of
        Some n \<Rightarrow> (Inl (EOTHER n), tick (Listdir d) w)
      | None \<Rightarrow>
          (case dirs w d of
             None \<Rightarrow> (Inl ENOENT, tick (Listdir d) w)
           | Some es \<Rightarrow> (Inr (map fst es), tick (Listdir d) w)))"

text \<open>
  \<^verbatim>\<open>os.rename\<close>: \<^verbatim>\<open>ENOENT\<close> when the source or the directory of the target is
  missing; an existing target is replaced.
\<close>

definition os_rename :: "env \<Rightarrow> path \<Rightarrow> path \<Rightarrow> world \<Rightarrow> errno option \<times> world" where
  "os_rename ev src dst w =
     (case os_fault ev (clock w) (Rename src dst) of
        Some n \<Rightarrow> (Some (EOTHER n), tick (Rename src dst) w)
      | None \<Rightarrow>
          (case lookup_file w src of
             None \<Rightarrow> (Some ENOENT, tick (Rename src dst) w)
           | Some data \<Rightarrow>
               (case dirs w (fst dst) of
                  None \<Rightarrow> (Some ENOENT, tick (Rename src dst) w)
                | Some _ \<Rightarrow>
                    (let ds = (dirs w)(fst src \<mapsto> AList.delete (snd src) (the (dirs w (fst src))));
                         ds' = ds(fst dst \<mapsto> AList.update (snd dst) data (the (ds (fst dst))))
                     in (None, tick (Rename src dst) (w\<lparr>dirs := ds'\<rparr>))))))"

definition os_unlink :: "env \<Rightarrow> path \<Rightarrow> world \<Rightarrow> errno option \<times> world" where
  "os_unlink ev p w =
     (case os_fault ev (clock w) (Unlink p) of
        Some n \<Rightarrow> (Some (EOTHER n), tick (Unlink p) w)
      | None \<Rightarrow>
          (case lookup_file w p of
             None \<Rightarrow> (Some ENOENT, tick (Unlink p) w)
           | Some _ \<Rightarrow>
               (None, tick (Unlink p) (w\<lparr>dirs := (dirs w)(fst p \<mapsto> AList.delete (snd p) (the (dirs w (fst p))))\<rparr>))))"

text \<open>
  Lines 146-147: \<^verbatim>\<open>open(dstname, 'rb')\<close>, then the parser on the bytes read.
\<close>

definition load_message :: "env \<Rightarrow> path \<Rightarrow> world \<Rightarrow> (exn + message) \<times> world" where
  "load_message ev p w =
     (case os_fault ev (clock w) (Open p) of
        Some n \<Rightarrow> (Inl (OSError (EOTHER n)), tick (Open p) w)
      | None \<Rightarrow>
          (case lookup_file w p of
             None \<Rightarrow> (Inl (OSError ENOENT), tick (Open p) w)
           | Some data \<Rightarrow> (message_from_binary_file ev data, tick (Open p) w)))"

text \<open>
  \<^verbatim>\<open>queue.enqueue(msg, msgdata)\<close> on the switchboard of directory \<open>qdir\<close>. The
  switchboard is the collaborator of the runner: it either stores the entry or raises.
\<close>

definition enqueue :: "env \<Rightarrow> string \<Rightarrow> message \<Rightarrow> msgdata \<Rightarrow> world \<Rightarrow> exn option \<times> world" where
  "enqueue ev qdir msg msgdata w =
     (case lib_fault ev (clock w) (Enqueue qdir) of
        Some e \<Rightarrow> (Some e, tick (Enqueue qdir) w)
      | None \<Rightarrow> (None, tick (Enqueue qdir) (w\<lparr>queues := queues w @ [(qdir, msg, msgdata)]\<rparr>)))"

section \<open>The runner\<close>

text \<open>Lines 105-106 and 131-133.\<close>

definition dir_new :: "env \<Rightarrow> string" where
  "dir_new ev = os_path_join_str (MAILDIR_DIR (cfg ev)) ''new''"

definition dir_cur :: "env \<Rightarrow> string" where
  "dir_cur ev = os_path_join_str (MAILDIR_DIR (cfg ev)) ''cur''"

definition srcname :: "env \<Rightarrow> string \<Rightarrow> path" where
  "srcname ev file = os_path_join (dir_new ev) file"

definition dstname :: "env \<Rightarrow> string \<Rightarrow> path" where
  "dstname ev file = os_path_join (dir_cur ev) (file @ '':1,P'')"

definition xdstname :: "env \<Rightarrow> string \<Rightarrow> path" where
  "xdstname ev file = os_path_join (dir_cur ev) (file @ '':1,X'')"

definition path_str :: "path \<Rightarrow> string" where
  "path_str p = os_path_join_str (fst p) (snd p)"

text \<open>
  Lines 101-115, \<^verbatim>\<open>__init__\<close>. \<open>Inl\<close> is the exception that leaves the constructor,
  with the world as it is then.
\<close>

definition init_body :: "env \<Rightarrow> world \<Rightarrow> (exn \<times> world) + world" where
  "init_body ev w0 =
     (case lib_fault ev (clock w0) RunnerInit of
        Some e \<Rightarrow> Inl (e, tick RunnerInit w0)
      | None \<Rightarrow>
          (let w1 = tick RunnerInit w0 in
           case (if \<not> os_path_exists w1 (dir_new ev) then os_makedirs ev (dir_new ev) w1
                 else (None, w1)) of
             (Some e, w2) \<Rightarrow> Inl (OSError e, w2)
           | (None, w2) \<Rightarrow>
               (case (if \<not> os_path_exists w2 (dir_cur ev) then os_makedirs ev (dir_cur ev) w2
                      else (None, w2)) of
                  (Some e, w3) \<Rightarrow> Inl (OSError e, w3)
                | (None, w3) \<Rightarrow>
                    Inr (syslog ''debug'' ''MaildirRunner: Initialization complete'' [] w3))))"

definition init :: "env \<Rightarrow> world \<Rightarrow> (exn \<times> world) + world" where
  "init ev w =
     (case init_body ev (syslog ''debug'' ''MaildirRunner: Starting initialization'' [] w) of
        Inl (e, w') \<Rightarrow>
          Inl (e, syslog ''error'' ''MaildirRunner: Initialization failed: %s\<newline>Traceback:\<newline>%s''
                    [E e, Traceback e] w')
      | Inr w' \<Rightarrow> Inr w')"

text \<open>
  Lines 145-207, the body of the \<^verbatim>\<open>try\<close> for a claimed file. \<open>Inl\<close> is an exception
  raised inside it; \<open>Inr\<close> is the end of the body or one of its \<^verbatim>\<open>continue\<close>.
  \<^verbatim>\<open>get_switchboard(dir)\<close> only names the queue of that directory; a failure of the queue
  layer is the failure of \<^verbatim>\<open>enqueue\<close>.
\<close>

definition process_claimed :: "env \<Rightarrow> string list \<Rightarrow> string \<Rightarrow> world \<Rightarrow> (exn \<times> world) + world" where
  "process_claimed ev listnames file w0 =
     (case load_message ev (dstname ev file) w0 of
        (Inl e, w1) \<Rightarrow> Inl (e, w1)
      | (Inr msg, w1) \<Rightarrow>
          (case route (parseaddr ev) listnames (header_vals msg) of
             None \<Rightarrow>
               (case os_rename ev (dstname ev file) (xdstname ev file)
                       (syslog ''error'' ''Message apparently not for any list: %s''
                          [S (path_str (xdstname ev file))] w1) of
                  (Some e, w2) \<Rightarrow> Inl (OSError e, w2)
                | (None, w2) \<Rightarrow> Inr w2)
           | Some (listname, subq) \<Rightarrow>
               (case select (cfg ev) listname subq of
                  None \<Rightarrow>
                    (case os_rename ev (dstname ev file) (xdstname ev file)
                            (syslog ''error'' ''Unknown sub-queue: %s''
                               [S (case subq of Some t \<Rightarrow> t | None \<Rightarrow> ''None'')] w1) of
                       (Some e, w2) \<Rightarrow> Inl (OSError e, w2)
                     | (None, w2) \<Rightarrow> Inr w2)
                | Some (qdir, msgdata) \<Rightarrow>
                    (case enqueue ev qdir msg msgdata w1 of
                       (Some e, w2) \<Rightarrow> Inl (e, w2)
                     | (None, w2) \<Rightarrow>
                         (case os_unlink ev (dstname ev file) w2 of
                            (Some e, w3) \<Rightarrow> Inl (OSError e, w3)
                          | (None, w3) \<Rightarrow>
                              Inr (syslog ''debug'' ''Successfully processed maildir message: %s''
                                     [S file] w3))))))"

text \<open>Lines 209-215, the handler: log, try to quarantine, ignore an \<^verbatim>\<open>OSError\<close>.\<close>

definition handle_failure :: "env \<Rightarrow> string \<Rightarrow> exn \<Rightarrow> world \<Rightarrow> world" where
  "handle_failure ev file e w =
     snd (os_rename ev (dstname ev file) (xdstname ev file)
            (syslog ''error'' ''Error processing maildir file %s: %s\<newline>Traceback:\<newline>%s''
               [S file, E e, Traceback e] w))"

text \<open>
  Lines 131-215, one turn of the \<^verbatim>\<open>for\<close> loop. \<open>Inl\<close> is the exception that leaves
  \<^verbatim>\<open>_oneloop\<close>.
\<close>

definition process_file :: "env \<Rightarrow> string list \<Rightarrow> string \<Rightarrow> world \<Rightarrow> (exn \<times> world) + world" where
  "process_file ev listnames file w =
     (case os_rename ev (srcname ev file) (dstname ev file) w of
        (Some e, w1) \<Rightarrow>
          if e = ENOENT then Inr w1
          else Inl (OSError e,
                    syslog ''error'' ''Could not rename maildir file: %s''
                      [S (path_str (srcname ev file))] w1)
      | (None, w1) \<Rightarrow>
          (case process_claimed ev listnames file w1 of
             Inl (e, w2) \<Rightarrow> Inr (handle_failure ev file e w2)
           | Inr w2 \<Rightarrow> Inr w2))"

text \<open>
  Lines 130-217: the loop over the listing, then \<^verbatim>\<open>return len(files)\<close>. The listing
  is an argument of its own: a name in it that is no longer in \<^verbatim>\<open>new/\<close> when its turn
  comes is a file another runner has claimed since the directory was listed.
\<close>

fun process_files :: "env \<Rightarrow> string list \<Rightarrow> string list \<Rightarrow> world \<Rightarrow> (exn \<times> world) + world" where
  "process_files ev listnames [] w = Inr w"
| "process_files ev listnames (file # files) w =
     (case process_file ev listnames file w of
        Inl x \<Rightarrow> Inl x
      | Inr w' \<Rightarrow> process_files ev listnames files w')"

definition oneloop_files :: "env \<Rightarrow> string list \<Rightarrow> string list \<Rightarrow> world \<Rightarrow> (exn \<times> world) + (nat \<times> world)" where
  "oneloop_files ev listnames files w =
     (case process_files ev listnames files w of
        Inl x \<Rightarrow> Inl x
      | Inr w' \<Rightarrow> Inr (length files, w'))"

text \<open>Lines 117-217, \<^verbatim>\<open>_oneloop\<close>.\<close>

definition oneloop :: "env \<Rightarrow> world \<Rightarrow> (exn \<times> world) + (nat \<times> world)" where
  "oneloop ev w =
     (case os_listdir ev (dir_new ev) w of
        (Inl e, w1) \<Rightarrow>
          if e \<noteq> ENOENT then
            Inl (OSError e, syslog ''error'' ''Error listing maildir directory: %s'' [E (OSError e)] w1)
          else Inr (0, w1)
      | (Inr files, w1) \<Rightarrow> oneloop_files ev (list_names ev) files w1)"

section \<open>States of a mail-drop file\<close>

text \<open>
  A file name is looked for at its three paths: in \<^verbatim>\<open>new/\<close> under its own name, in
  \<^verbatim>\<open>cur/\<close> with the suffix \<^verbatim>\<open>:1,P\<close>, and in \<^verbatim>\<open>cur/\<close> with the suffix \<^verbatim>\<open>:1,X\<close>.
  A name found at none of them is removed.
\<close>

datatype file_state = Unclaimed | InProgress | Quarantined | Removed

definition present_states :: "env \<Rightarrow> world \<Rightarrow> string \<Rightarrow> file_state list" where
  "present_states ev w f =
     (if lookup_file w (srcname ev f) \<noteq> None then [Unclaimed] else []) @
     (if lookup_file w (dstname ev f) \<noteq> None then [InProgress] else []) @
     (if lookup_file w (xdstname ev f) \<noteq> None then [Quarantined] else [])"

definition file_states :: "env \<Rightarrow> world \<Rightarrow> string \<Rightarrow> file_state list" where
  "file_states ev w f =
     (if present_states ev w f = [] then [Removed] else present_states ev w f)"

text \<open>The world in which a run ends, with or without an exception.\<close>

definition final_world :: "(exn \<times> world) + world \<Rightarrow> world" where
  "final_world r = (case r of Inl (e, w) \<Rightarrow> w | Inr w \<Rightarrow> w)"

text \<open>The calls to \<^verbatim>\<open>os.listdir\<close> among the calls made.\<close>

definition listdir_calls :: "world \<Rightarrow> call list" where
  "listdir_calls w = filter (\<lambda>c. case c of Listdir d \<Rightarrow> True | _ \<Rightarrow> False) (calls w)"

text \<open>The renames out of the unclaimed path of a file among a list of calls.\<close>

definition claim_calls :: "env \<Rightarrow> string \<Rightarrow> call list \<Rightarrow> call list" where
  "claim_calls ev f cs =
     filter (\<lambda>c. case c of Rename src dst \<Rightarrow> src = srcname ev f | _ \<Rightarrow> False) cs"

text \<open>
  The addresses the loop of lines 154-164 tests: one for each header value for which
  the address extractor gives a non-empty string.
\<close>

definition candidates :: "(string \<Rightarrow> string) \<Rightarrow> string list \<Rightarrow> string list" where
  "candidates extract vals = filter (\<lambda>to. to \<noteq> []) (map extract vals)"

section \<open>Concrete inputs\<close>

definition cfg0 :: config where
  "cfg0 = \<lparr>MAILDIR_DIR = ''/md'', BOUNCEQUEUE_DIR = ''q/bounces'',
            CMDQUEUE_DIR = ''q/commands'', INQUEUE_DIR = ''q/in'',
            OWNER_PIPELINE = [''SpamDetect'', ''Replybot''],
            site_bounces = ''mailman-bounces@example.com''\<rparr>"

text \<open>
  Two stand-ins for \<^verbatim>\<open>parseaddr(field)[1]\<close> on a field that is a comma-separated list
  of bare addresses: the first address (the library before its strict mode), and the empty
  string when there is more than one address (strict mode).
\<close>

definition parseaddr_first :: "string \<Rightarrow> string" where
  "parseaddr_first field = takeWhile (\<lambda>c. c \<noteq> CHR '','') field"

definition parseaddr_strict :: "string \<Rightarrow> string" where
  "parseaddr_strict field = (if CHR '','' \<in> set field then [] else field)"

text \<open>
  A parser for the examples: the file holds the value of its one \<^verbatim>\<open>Delivered-To\<close>
  field. The parser does not raise, whatever the content; the empty file is a message
  without header fields.
\<close>

definition parse_delivered_to :: "string \<Rightarrow> exn + message" where
  "parse_delivered_to data = Inr (if data = [] then [] else [(''Delivered-To'', data)])"

text \<open>No failure of the environment.\<close>

definition ev0 :: env where
  "ev0 = \<lparr>cfg = cfg0, list_names = [''mylist''], parseaddr = parseaddr_first,
           message_from_binary_file = parse_delivered_to,
           os_fault = (\<lambda>t c. None), lib_fault = (\<lambda>t c. None)\<rparr>"

text \<open>Every rename out of \<^verbatim>\<open>new/\<close> fails with errno 13.\<close>

definition ev_claim_fails :: env where
  "ev_claim_fails =
     ev0\<lparr>os_fault := (\<lambda>t c. case c of Rename src dst \<Rightarrow>
                                   (if fst src = ''/md/new'' then Some 13 else None)
                                | _ \<Rightarrow> None)\<rparr>"

text \<open>Every rename out of \<^verbatim>\<open>cur/\<close> (the quarantine rename) fails with errno 13.\<close>

definition ev_quarantine_fails :: env where
  "ev_quarantine_fails =
     ev0\<lparr>os_fault := (\<lambda>t c. case c of Rename src dst \<Rightarrow>
                                   (if fst src = ''/md/cur'' then Some 13 else None)
                                | _ \<Rightarrow> None)\<rparr>"

text \<open>The queue refuses every entry, and the quarantine rename fails as well.\<close>

definition ev_enqueue_fails :: env where
  "ev_enqueue_fails =
     ev_quarantine_fails\<lparr>lib_fault := (\<lambda>t c. case c of Enqueue q \<Rightarrow> Some (OtherError ''queue full'')
                                                | _ \<Rightarrow> None)\<rparr>"

text \<open>\<^verbatim>\<open>open\<close> fails with errno 13.\<close>

definition ev_open_fails :: env where
  "ev_open_fails =
     ev0\<lparr>os_fault := (\<lambda>t c. case c of Open p \<Rightarrow> Some 13 | _ \<Rightarrow> None)\<rparr>"

text \<open>\<^verbatim>\<open>open\<close> fails with errno 13, and so does every rename out of \<^verbatim>\<open>cur/\<close>.\<close>

definition ev_open_quarantine_fail :: env where
  "ev_open_quarantine_fail =
     ev0\<lparr>os_fault := (\<lambda>t c. case c of Open p \<Rightarrow> Some 13
                                | Rename src dst \<Rightarrow>
                                    (if fst src = ''/md/cur'' then Some 13 else None)
                                | _ \<Rightarrow> None)\<rparr>"

text \<open>\<^verbatim>\<open>os.makedirs\<close> fails with errno 13.\<close>

definition ev_makedirs_fails :: env where
  "ev_makedirs_fails =
     ev0\<lparr>os_fault := (\<lambda>t c. case c of Makedirs d \<Rightarrow> Some 13 | _ \<Rightarrow> None)\<rparr>"

text \<open>Worlds: nothing on disk; the two directories with the given files in \<^verbatim>\<open>new/\<close>.\<close>

definition w_none :: world where
  "w_none = \<lparr>dirs = Map.empty, queues = [], log = [], calls = []\<rparr>"

definition w_files :: "(string \<times> string) list \<Rightarrow> world" where
  "w_files es = \<lparr>dirs = [''/md/new'' \<mapsto> es, ''/md/cur'' \<mapsto> []], queues = [], log = [],
                 calls = []\<rparr>"

section \<open>Facts about the operations on the world\<close>

lemma dir_new_neq_cur: "dir_new ev \<noteq> dir_cur ev" "dir_cur ev \<noteq> dir_new ev"
  by (simp_all add: dir_new_def dir_cur_def os_path_join_str_def)

lemma tick_fields [simp]:
  "dirs (tick c w) = dirs w" "queues (tick c w) = queues w" "log (tick c w) = log w"
  "calls (tick c w) = calls w @ [c]"
  by (simp_all add: tick_def)

lemma syslog_fields [simp]:
  "dirs (syslog n f a w) = dirs w" "queues (syslog n f a w) = queues w"
  "log (syslog n f a w) = log w @ [(n, f, a)]" "calls (syslog n f a w) = calls w"
  by (simp_all add: syslog_def)

lemma lookup_file_cong: "dirs w' = dirs w \<Longrightarrow> lookup_file w' = lookup_file w"
  by (rule ext) (simp add: lookup_file_def)

lemma lookup_file_tick [simp]: "lookup_file (tick c w) = lookup_file w"
  by (rule lookup_file_cong) simp

lemma lookup_file_syslog [simp]: "lookup_file (syslog n f a w) = lookup_file w"
  by (rule lookup_file_cong) simp

lemma clock_syslog [simp]: "clock (syslog n f a w) = clock w"
  by (simp add: clock_def)

lemma clock_tick [simp]: "clock (tick c w) = Suc (clock w)"
  by (simp add: clock_def)

lemma os_rename_failed:
  assumes "os_rename ev src dst w = (Some e, w')"
  shows "w' = tick (Rename src dst) w"
  using assms by (simp add: os_rename_def Let_def split: option.splits)

lemma os_rename_done:
  assumes "os_rename ev src dst w = (None, w')"
  shows "\<exists>data. lookup_file w src = Some data \<and>
           lookup_file w' = (lookup_file w)(src := None, dst \<mapsto> data)"
    and "queues w' = queues w" and "log w' = log w"
    and "calls w' = calls w @ [Rename src dst]"
    and "os_fault ev (clock w) (Rename src dst) = None"
    and "dirs w (fst dst) \<noteq> None"
    and "\<And>d. (dirs w' d = None) = (dirs w d = None)"
proof -
  from assms obtain data es where
    f: "os_fault ev (clock w) (Rename src dst) = None" and
    s: "lookup_file w src = Some data" and
    d: "dirs w (fst dst) = Some es" and
    w': "w' = tick (Rename src dst)
           (w\<lparr>dirs := ((dirs w)(fst src \<mapsto> AList.delete (snd src) (the (dirs w (fst src)))))
                  (fst dst \<mapsto> AList.update (snd dst) data
                     (the (((dirs w)(fst src \<mapsto> AList.delete (snd src) (the (dirs w (fst src)))))
                        (fst dst))))\<rparr>)"
    by (simp add: os_rename_def Let_def split: option.splits)
  from s obtain ss where ss: "dirs w (fst src) = Some ss" "map_of ss (snd src) = Some data"
    by (auto simp add: lookup_file_def split: option.splits)
  have "lookup_file w' p = ((lookup_file w)(src := None, dst \<mapsto> data)) p" for p
    using ss d unfolding w'
    by (cases p; cases src; cases dst)
       (auto simp add: lookup_file_def update_conv' delete_conv' split: option.splits)
  then have "lookup_file w' = (lookup_file w)(src := None, dst \<mapsto> data)"
    by (rule ext)
  with s show "\<exists>data. lookup_file w src = Some data \<and>
           lookup_file w' = (lookup_file w)(src := None, dst \<mapsto> data)"
    by blast
  show "queues w' = queues w" "log w' = log w" "calls w' = calls w @ [Rename src dst]"
    unfolding w' by simp_all
  show "os_fault ev (clock w) (Rename src dst) = None" by (rule f)
  show "dirs w (fst dst) \<noteq> None" using d by simp
  show "(dirs w' d = None) = (dirs w d = None)" for d
    using ss d unfolding w' by simp
qed

lemma os_rename_succeeds:
  assumes "os_fault ev (clock w) (Rename src dst) = None"
    and "lookup_file w src = Some data" and "dirs w (fst dst) \<noteq> None"
  shows "fst (os_rename ev src dst w) = None"
  using assms by (auto simp add: os_rename_def Let_def split: option.splits)

lemma os_rename_enoent:
  assumes "os_rename ev src dst w = (Some ENOENT, w')"
  shows "lookup_file w src = None \<or> dirs w (fst dst) = None"
  using assms by (auto simp add: os_rename_def Let_def split: option.splits)

lemma os_unlink_failed:
  assumes "os_unlink ev p w = (Some e, w')"
  shows "w' = tick (Unlink p) w"
  using assms by (simp add: os_unlink_def split: option.splits)

lemma os_unlink_done:
  assumes "os_unlink ev p w = (None, w')"
  shows "lookup_file w' = (lookup_file w)(p := None)"
    and "queues w' = queues w" and "log w' = log w"
    and "calls w' = calls w @ [Unlink p]"
    and "\<And>d. (dirs w' d = None) = (dirs w d = None)"
proof -
  from assms obtain data where
    s: "lookup_file w p = Some data" and
    w': "w' = tick (Unlink p) (w\<lparr>dirs := (dirs w)(fst p \<mapsto> AList.delete (snd p) (the (dirs w (fst p))))\<rparr>)"
    by (auto simp add: os_unlink_def split: option.splits)
  from s obtain ss where ss: "dirs w (fst p) = Some ss"
    by (auto simp add: lookup_file_def split: option.splits)
  have "lookup_file w' q = ((lookup_file w)(p := None)) q" for q
    using ss unfolding w'
    by (cases p; cases q) (auto simp add: lookup_file_def delete_conv' split: option.splits)
  then show "lookup_file w' = (lookup_file w)(p := None)"
    by (rule ext)
  show "queues w' = queues w" "log w' = log w" "calls w' = calls w @ [Unlink p]"
    unfolding w' by simp_all
  show "(dirs w' d = None) = (dirs w d = None)" for d
    using ss unfolding w' by simp
qed

lemma load_message_world:
  assumes "load_message ev p w = (r, w')"
  shows "w' = tick (Open p) w"
  using assms by (auto simp add: load_message_def split: option.splits)

lemma enqueue_failed:
  assumes "enqueue ev qdir msg md w = (Some e, w')"
  shows "w' = tick (Enqueue qdir) w"
  using assms by (simp add: enqueue_def split: option.splits)

lemma enqueue_done:
  assumes "enqueue ev qdir msg md w = (None, w')"
  shows "w' = tick (Enqueue qdir) (w\<lparr>queues := queues w @ [(qdir, msg, md)]\<rparr>)"
  using assms by (simp add: enqueue_def split: option.splits)

section \<open>The destination selector realises its table\<close>

lemma select_listname: "select c l subq = Some r \<Longrightarrow> snd r ''listname'' = Some (VStr l)"
  unfolding select_def Let_def
  by (simp split: if_splits; (elim conjE disjE)?; hypsubst; simp)

lemma select_defined:
  "select c l subq \<noteq> None \<longleftrightarrow> subq = None \<or> (\<exists>t \<in> set subq_tokens. subq = Some t)"
  unfolding select_def Let_def subq_tokens_def
  by (cases subq) auto

text \<open>
  C2. The selector is a function of the sub-queue token alone (with the list name and the
  configuration): \<open>bounces\<close> and \<open>admin\<close> give the bounce queue with only the list name;
  \<open>confirm\<close>, \<open>join\<close>/\<open>subscribe\<close>, \<open>leave\<close>/\<open>unsubscribe\<close> and \<open>request\<close> give the
  command queue with \<open>toconfirm\<close>, \<open>tojoin\<close>, \<open>toleave\<close>, \<open>torequest\<close>; \<open>owner\<close> gives
  the inbound queue with \<open>toowner\<close>, \<open>envsender\<close> and \<open>pipeline\<close>; no sub-queue gives the
  inbound queue with \<open>tolist\<close>. Every selection carries the list name, and a selection is
  made exactly for no token and for the nine tokens.
\<close>

theorem select_table:
  "select c l (Some ''bounces'') = Some (BOUNCEQUEUE_DIR c, [''listname'' \<mapsto> VStr l]) \<and>
   select c l (Some ''admin'') = Some (BOUNCEQUEUE_DIR c, [''listname'' \<mapsto> VStr l]) \<and>
   select c l (Some ''confirm'') =
     Some (CMDQUEUE_DIR c, [''listname'' \<mapsto> VStr l, ''toconfirm'' \<mapsto> VInt 1]) \<and>
   select c l (Some ''join'') =
     Some (CMDQUEUE_DIR c, [''listname'' \<mapsto> VStr l, ''tojoin'' \<mapsto> VInt 1]) \<and>
   select c l (Some ''subscribe'') =
     Some (CMDQUEUE_DIR c, [''listname'' \<mapsto> VStr l, ''tojoin'' \<mapsto> VInt 1]) \<and>
   select c l (Some ''leave'') =
     Some (CMDQUEUE_DIR c, [''listname'' \<mapsto> VStr l, ''toleave'' \<mapsto> VInt 1]) \<and>
   select c l (Some ''unsubscribe'') =
     Some (CMDQUEUE_DIR c, [''listname'' \<mapsto> VStr l, ''toleave'' \<mapsto> VInt 1]) \<and>
   select c l (Some ''owner'') =
     Some (INQUEUE_DIR c, [''listname'' \<mapsto> VStr l, ''toowner'' \<mapsto> VInt 1,
                           ''envsender'' \<mapsto> VStr (site_bounces c),
                           ''pipeline'' \<mapsto> VPipeline (OWNER_PIPELINE c)]) \<and>
   select c l None = Some (INQUEUE_DIR c, [''listname'' \<mapsto> VStr l, ''tolist'' \<mapsto> VInt 1]) \<and>
   select c l (Some ''request'') =
     Some (CMDQUEUE_DIR c, [''listname'' \<mapsto> VStr l, ''torequest'' \<mapsto> VInt 1]) \<and>
   (select c l subq = Some (q, md) \<longrightarrow> md ''listname'' = Some (VStr l)) \<and>
   (select c l subq \<noteq> None \<longleftrightarrow> subq = None \<or> (\<exists>t \<in> set subq_tokens. subq = Some t))"
proof -
  have table:
    "select c l (Some ''bounces'') = Some (BOUNCEQUEUE_DIR c, [''listname'' \<mapsto> VStr l])"
    "select c l (Some ''admin'') = Some (BOUNCEQUEUE_DIR c, [''listname'' \<mapsto> VStr l])"
    "select c l (Some ''confirm'') =
       Some (CMDQUEUE_DIR c, [''listname'' \<mapsto> VStr l, ''toconfirm'' \<mapsto> VInt 1])"
    "select c l (Some ''join'') =
       Some (CMDQUEUE_DIR c, [''listname'' \<mapsto> VStr l, ''tojoin'' \<mapsto> VInt 1])"
    "select c l (Some ''subscribe'') =
       Some (CMDQUEUE_DIR c, [''listname'' \<mapsto> VStr l, ''tojoin'' \<mapsto> VInt 1])"
    "select c l (Some ''leave'') =
       Some (CMDQUEUE_DIR c, [''listname'' \<mapsto> VStr l, ''toleave'' \<mapsto> VInt 1])"
    "select c l (Some ''unsubscribe'') =
       Some (CMDQUEUE_DIR c, [''listname'' \<mapsto> VStr l, ''toleave'' \<mapsto> VInt 1])"
    "select c l (Some ''owner'') =
       Some (INQUEUE_DIR c, [''listname'' \<mapsto> VStr l, ''toowner'' \<mapsto> VInt 1,
                             ''envsender'' \<mapsto> VStr (site_bounces c),
                             ''pipeline'' \<mapsto> VPipeline (OWNER_PIPELINE c)])"
    "select c l None = Some (INQUEUE_DIR c, [''listname'' \<mapsto> VStr l, ''tolist'' \<mapsto> VInt 1])"
    "select c l (Some ''request'') =
       Some (CMDQUEUE_DIR c, [''listname'' \<mapsto> VStr l, ''torequest'' \<mapsto> VInt 1])"
    by (simp_all add: select_def)
  have carries: "select c l subq = Some (q, md) \<longrightarrow> md ''listname'' = Some (VStr l)"
    using select_listname [of c l subq "(q, md)"] by simp
  from table carries select_defined [of c l subq] show ?thesis
    by (intro conjI)
qed

theorem select_table_witness:
  "select cfg0 ''mylist'' (Some ''owner'') =
     Some (''q/in'', [''listname'' \<mapsto> VStr ''mylist'', ''toowner'' \<mapsto> VInt 1,
                      ''envsender'' \<mapsto> VStr ''mailman-bounces@example.com'',
                      ''pipeline'' \<mapsto> VPipeline [''SpamDetect'', ''Replybot'']]) \<and>
   ([''listname'' \<mapsto> VStr ''mylist'', ''toowner'' \<mapsto> VInt 1,
     ''envsender'' \<mapsto> VStr ''mailman-bounces@example.com'',
     ''pipeline'' \<mapsto> VPipeline [''SpamDetect'', ''Replybot'']] :: msgdata) ''listname'' =
     Some (VStr ''mylist'') \<and>
   ''owner'' \<in> set subq_tokens"
proof -
  have sel: "select cfg0 ''mylist'' (Some ''owner'') =
     Some (''q/in'', [''listname'' \<mapsto> VStr ''mylist'', ''toowner'' \<mapsto> VInt 1,
                      ''envsender'' \<mapsto> VStr ''mailman-bounces@example.com'',
                      ''pipeline'' \<mapsto> VPipeline [''SpamDetect'', ''Replybot'']])"
    by (simp add: select_def cfg0_def)
  have tok: "''owner'' \<in> set subq_tokens"
    by (simp add: subq_tokens_def)
  from select_table [of cfg0 "''mylist''" "Some ''owner''" "''q/in''"
      "[''listname'' \<mapsto> VStr ''mylist'', ''toowner'' \<mapsto> VInt 1,
        ''envsender'' \<mapsto> VStr ''mailman-bounces@example.com'',
        ''pipeline'' \<mapsto> VPipeline [''SpamDetect'', ''Replybot'']]"] sel
  have "([''listname'' \<mapsto> VStr ''mylist'', ''toowner'' \<mapsto> VInt 1,
     ''envsender'' \<mapsto> VStr ''mailman-bounces@example.com'',
     ''pipeline'' \<mapsto> VPipeline [''SpamDetect'', ''Replybot'']] :: msgdata) ''listname'' =
     Some (VStr ''mylist'')"
    by blast
  with sel tok show ?thesis by (intro conjI)
qed

section \<open>The pass\<close>

lemma listdir_calls_tick:
  "listdir_calls (tick c w) = listdir_calls w @ (case c of Listdir d \<Rightarrow> [c] | _ \<Rightarrow> [])"
  by (cases c) (simp_all add: listdir_calls_def)

lemma listdir_calls_syslog [simp]: "listdir_calls (syslog n f a w) = listdir_calls w"
  by (simp add: listdir_calls_def)

lemma listdir_calls_rename:
  "os_rename ev src dst w = (r, w') \<Longrightarrow> listdir_calls w' = listdir_calls w"
  by (cases r) (auto simp add: listdir_calls_def dest: os_rename_failed os_rename_done(4))

lemma listdir_calls_unlink:
  "os_unlink ev p w = (r, w') \<Longrightarrow> listdir_calls w' = listdir_calls w"
  by (cases r) (auto simp add: listdir_calls_def dest: os_unlink_failed os_unlink_done(4))

lemma listdir_calls_load:
  "load_message ev p w = (r, w') \<Longrightarrow> listdir_calls w' = listdir_calls w"
  by (auto simp add: listdir_calls_tick dest: load_message_world)

lemma listdir_calls_enqueue:
  "enqueue ev q m md w = (r, w') \<Longrightarrow> listdir_calls w' = listdir_calls w"
  by (cases r) (auto simp add: listdir_calls_def dest: enqueue_failed enqueue_done)

lemma lookup_file_queues [simp]: "lookup_file (w\<lparr>queues := q\<rparr>) = lookup_file w"
  by (rule lookup_file_cong) simp

lemma listdir_calls_queues [simp]: "listdir_calls (w\<lparr>queues := q\<rparr>) = listdir_calls w"
  by (simp add: listdir_calls_def)

lemma process_claimed_raises:
  assumes "process_claimed ev L f w = Inl (e, w')"
  shows "lookup_file w' = lookup_file w" and "listdir_calls w' = listdir_calls w"
    and "\<And>d. (dirs w' d = None) = (dirs w d = None)"
  using assms unfolding process_claimed_def
  by (auto split: prod.splits sum.splits option.splits
      dest!: os_rename_failed os_unlink_failed load_message_world enqueue_failed enqueue_done
      simp add: listdir_calls_tick)

lemma process_claimed_returns:
  assumes "process_claimed ev L f w = Inr w'"
  shows "\<exists>data. lookup_file w (dstname ev f) = Some data \<and>
           (lookup_file w' = (lookup_file w)(dstname ev f := None, xdstname ev f \<mapsto> data) \<or>
            lookup_file w' = (lookup_file w)(dstname ev f := None))"
    and "listdir_calls w' = listdir_calls w"
    and "\<And>d. (dirs w' d = None) = (dirs w d = None)"
proof -
  from assms obtain r w1 where l: "load_message ev (dstname ev f) w = (r, w1)"
    by (cases "load_message ev (dstname ev f) w") simp
  then have w1: "w1 = tick (Open (dstname ev f)) w"
    by (rule load_message_world)
  from assms l obtain msg where r: "r = Inr msg"
    by (cases r) (simp_all add: process_claimed_def)
  let ?P = "\<lambda>w'. (\<exists>data. lookup_file w (dstname ev f) = Some data \<and>
           (lookup_file w' = (lookup_file w)(dstname ev f := None, xdstname ev f \<mapsto> data) \<or>
            lookup_file w' = (lookup_file w)(dstname ev f := None))) \<and>
     listdir_calls w' = listdir_calls w \<and> (\<forall>d. (dirs w' d = None) = (dirs w d = None))"
  have quarantine: "?P w2" if "os_rename ev (dstname ev f) (xdstname ev f) (syslog n fmt a w1) = (None, w2)"
    for n fmt a w2
    using os_rename_done [OF that] listdir_calls_rename [OF that] unfolding w1
    by (simp add: listdir_calls_tick) blast
  have "?P w'"
  proof (cases "route (parseaddr ev) L (header_vals msg)")
    case None
    with assms l r
    have "os_rename ev (dstname ev f) (xdstname ev f)
            (syslog ''error'' ''Message apparently not for any list: %s''
               [S (path_str (xdstname ev f))] w1) = (None, w')"
      by (simp add: process_claimed_def split: prod.splits option.splits)
    then show ?thesis by (rule quarantine)
  next
    case (Some m)
    obtain listname subq where m: "m = (listname, subq)" by (cases m)
    show ?thesis
    proof (cases "select (cfg ev) listname subq")
      case None
      with assms l r Some m
      have "os_rename ev (dstname ev f) (xdstname ev f)
              (syslog ''error'' ''Unknown sub-queue: %s''
                 [S (case subq of Some t \<Rightarrow> t | None \<Rightarrow> ''None'')] w1) = (None, w')"
        by (simp add: process_claimed_def split: prod.splits option.splits)
      then show ?thesis by (rule quarantine)
    next
      case sel: (Some qm)
      obtain qdir md where qm: "qm = (qdir, md)" by (cases qm)
      from assms l r Some m sel qm obtain w2 w3 where
        e: "enqueue ev qdir msg md w1 = (None, w2)" and
        u: "os_unlink ev (dstname ev f) w2 = (None, w3)" and
        w': "w' = syslog ''debug'' ''Successfully processed maildir message: %s'' [S f] w3"
        by (auto simp add: process_claimed_def split: prod.splits option.splits)
      from e have w2: "w2 = tick (Enqueue qdir) (w1\<lparr>queues := queues w1 @ [(qdir, msg, md)]\<rparr>)"
        by (rule enqueue_done)
      from u obtain data where "lookup_file w2 (dstname ev f) = Some data"
        by (auto simp add: os_unlink_def split: option.splits)
      with os_unlink_done [OF u] listdir_calls_unlink [OF u] show ?thesis
        unfolding w' w2 w1 by (simp add: listdir_calls_tick)
    qed
  qed
  then show "\<exists>data. lookup_file w (dstname ev f) = Some data \<and>
           (lookup_file w' = (lookup_file w)(dstname ev f := None, xdstname ev f \<mapsto> data) \<or>
            lookup_file w' = (lookup_file w)(dstname ev f := None))"
    and "listdir_calls w' = listdir_calls w"
    and "\<And>d. (dirs w' d = None) = (dirs w d = None)"
    by simp_all
qed

lemma file_paths_distinct:
  "srcname ev f \<noteq> dstname ev f" "srcname ev f \<noteq> xdstname ev f"
  "dstname ev f \<noteq> xdstname ev f"
  by (simp_all add: srcname_def dstname_def xdstname_def os_path_join_def dir_new_neq_cur)

lemma handle_failure_effect:
  assumes "lookup_file w (dstname ev f) = Some data" and "dirs w (dir_cur ev) \<noteq> None"
  shows "(lookup_file (handle_failure ev f e w) = lookup_file w \<and>
            (\<exists>t. os_fault ev t (Rename (dstname ev f) (xdstname ev f)) \<noteq> None)) \<or>
         lookup_file (handle_failure ev f e w) =
           (lookup_file w)(dstname ev f := None, xdstname ev f \<mapsto> data)"
    and "listdir_calls (handle_failure ev f e w) = listdir_calls w"
    and "\<And>d. (dirs (handle_failure ev f e w) d = None) = (dirs w d = None)"
proof -
  let ?w1 = "syslog ''error'' ''Error processing maildir file %s: %s\<newline>Traceback:\<newline>%s''
               [S f, E e, Traceback e] w"
  obtain r w2 where ren: "os_rename ev (dstname ev f) (xdstname ev f) ?w1 = (r, w2)"
    by (cases "os_rename ev (dstname ev f) (xdstname ev f) ?w1")
  then have h: "handle_failure ev f e w = w2"
    by (simp add: handle_failure_def)
  have cur: "fst (xdstname ev f) = dir_cur ev"
    by (simp add: xdstname_def os_path_join_def)
  show "listdir_calls (handle_failure ev f e w) = listdir_calls w"
    using listdir_calls_rename [OF ren] h by simp
  show "(dirs (handle_failure ev f e w) d = None) = (dirs w d = None)" for d
  proof (cases r)
    case None
    with ren have "os_rename ev (dstname ev f) (xdstname ev f) ?w1 = (None, w2)" by simp
    from os_rename_done(7) [OF this, of d] h show ?thesis by simp
  next
    case (Some x)
    with ren have "os_rename ev (dstname ev f) (xdstname ev f) ?w1 = (Some x, w2)" by simp
    from os_rename_failed [OF this] h show ?thesis by simp
  qed
  show "(lookup_file (handle_failure ev f e w) = lookup_file w \<and>
            (\<exists>t. os_fault ev t (Rename (dstname ev f) (xdstname ev f)) \<noteq> None)) \<or>
         lookup_file (handle_failure ev f e w) =
           (lookup_file w)(dstname ev f := None, xdstname ev f \<mapsto> data)"
  proof (cases r)
    case None
    with ren have "os_rename ev (dstname ev f) (xdstname ev f) ?w1 = (None, w2)" by simp
    from os_rename_done(1) [OF this] assms(1) h show ?thesis by simp
  next
    case (Some x)
    with ren have "os_rename ev (dstname ev f) (xdstname ev f) ?w1 = (Some x, w2)" by simp
    from os_rename_failed [OF this] h
    have same: "lookup_file (handle_failure ev f e w) = lookup_file w" by simp
    have "os_fault ev (clock ?w1) (Rename (dstname ev f) (xdstname ev f)) \<noteq> None"
    proof
      assume "os_fault ev (clock ?w1) (Rename (dstname ev f) (xdstname ev f)) = None"
      from os_rename_succeeds [OF this, of data] assms cur ren Some show False
        by simp
    qed
    with same show ?thesis by blast
  qed
qed

lemma process_file_effect:
  assumes "w' = final_world (process_file ev L f w)"
  shows "lookup_file w' = lookup_file w \<or>
         (\<exists>data. lookup_file w (srcname ev f) = Some data \<and>
            ((lookup_file w' = (lookup_file w)(srcname ev f := None, dstname ev f \<mapsto> data) \<and>
              (\<exists>t. os_fault ev t (Rename (dstname ev f) (xdstname ev f)) \<noteq> None)) \<or>
             lookup_file w' =
               (lookup_file w)(srcname ev f := None, dstname ev f := None, xdstname ev f \<mapsto> data) \<or>
             lookup_file w' = (lookup_file w)(srcname ev f := None, dstname ev f := None)))"
    (is ?effect)
    and "listdir_calls w' = listdir_calls w" (is ?listing)
    and "\<And>d. (dirs w' d = None) = (dirs w d = None)"
proof -
  obtain r w1 where ren: "os_rename ev (srcname ev f) (dstname ev f) w = (r, w1)"
    by (cases "os_rename ev (srcname ev f) (dstname ev f) w")
  have "?effect \<and> ?listing \<and> (\<forall>d. (dirs w' d = None) = (dirs w d = None))"
  proof (cases r)
    case (Some x)
    with ren have w1: "w1 = tick (Rename (srcname ev f) (dstname ev f)) w"
      by (simp add: os_rename_failed)
    from ren Some assms have "w' = w1 \<or> w' = syslog ''error'' ''Could not rename maildir file: %s''
                      [S (path_str (srcname ev f))] w1"
      by (simp add: process_file_def final_world_def)
    then show ?thesis unfolding w1
      by (auto simp add: listdir_calls_tick)
  next
    case None
    with ren have claimed: "os_rename ev (srcname ev f) (dstname ev f) w = (None, w1)" by simp
    from os_rename_done(1) [OF claimed] obtain data where
      src: "lookup_file w (srcname ev f) = Some data" and
      l1: "lookup_file w1 = (lookup_file w)(srcname ev f := None, dstname ev f \<mapsto> data)"
      by blast
    have d1: "(dirs w1 d = None) = (dirs w d = None)" for d
      by (rule os_rename_done(7) [OF claimed])
    have c1: "listdir_calls w1 = listdir_calls w"
      by (rule listdir_calls_rename [OF claimed])
    have cur: "dirs w1 (dir_cur ev) \<noteq> None"
      using os_rename_done(6) [OF claimed] d1 [of "dir_cur ev"]
      by (simp add: dstname_def os_path_join_def)
    have at_dst: "lookup_file w1 (dstname ev f) = Some data"
      by (simp add: l1)
    show ?thesis
    proof (cases "process_claimed ev L f w1")
      case (Inl x)
      obtain e w2 where x: "x = (e, w2)" by (cases x)
      from Inl x claimed assms have w': "w' = handle_failure ev f e w2"
        by (simp add: process_file_def final_world_def)
      note raised = process_claimed_raises [OF Inl [unfolded x]]
      from handle_failure_effect [of w2 ev f data e] raised at_dst cur
      have "(lookup_file w' = lookup_file w1 \<and>
              (\<exists>t. os_fault ev t (Rename (dstname ev f) (xdstname ev f)) \<noteq> None)) \<or>
            lookup_file w' = (lookup_file w1)(dstname ev f := None, xdstname ev f \<mapsto> data)"
        and "listdir_calls w' = listdir_calls w1"
        and "\<And>d. (dirs w' d = None) = (dirs w1 d = None)"
        unfolding w' by simp_all
      with src l1 d1 c1 show ?thesis
        by auto
    next
      case (Inr w2)
      with claimed assms have w': "w' = w2"
        by (simp add: process_file_def final_world_def)
      from process_claimed_returns [OF Inr] at_dst
      have "lookup_file w' = (lookup_file w1)(dstname ev f := None, xdstname ev f \<mapsto> data) \<or>
            lookup_file w' = (lookup_file w1)(dstname ev f := None)"
        and "listdir_calls w' = listdir_calls w1"
        and "\<And>d. (dirs w' d = None) = (dirs w1 d = None)"
        unfolding w' by auto
      with src l1 d1 c1 show ?thesis
        by auto
    qed
  qed
  then show ?effect and ?listing and "\<And>d. (dirs w' d = None) = (dirs w d = None)"
    by simp_all
qed

lemma os_rename_other:
  assumes "os_rename ev src dst w = (Some (EOTHER n), w')"
  shows "os_fault ev (clock w) (Rename src dst) = Some n"
  using assms by (simp add: os_rename_def Let_def split: option.splits)

lemma process_file_returns:
  assumes "\<forall>t. os_fault ev t (Rename (srcname ev f) (dstname ev f)) = None"
  shows "\<exists>w'. process_file ev L f w = Inr w'"
proof -
  obtain r w1 where ren: "os_rename ev (srcname ev f) (dstname ev f) w = (r, w1)"
    by (cases "os_rename ev (srcname ev f) (dstname ev f) w")
  show ?thesis
  proof (cases r)
    case None
    with ren show ?thesis
      by (simp add: process_file_def split: sum.splits prod.splits)
  next
    case (Some e)
    have "e = ENOENT"
    proof (cases e)
      case (EOTHER n)
      with ren Some have "os_fault ev (clock w) (Rename (srcname ev f) (dstname ev f)) = Some n"
        by (simp add: os_rename_other)
      with assms show ?thesis by simp
    qed
    with ren Some show ?thesis
      by (simp add: process_file_def)
  qed
qed

lemma process_files_returns:
  assumes "\<forall>t. \<forall>f \<in> set fs. os_fault ev t (Rename (srcname ev f) (dstname ev f)) = None"
  shows "\<exists>w'. process_files ev L fs w = Inr w'"
  using assms
proof (induction fs arbitrary: w)
  case Nil
  show ?case by simp
next
  case (Cons f fs)
  from Cons.prems have "\<forall>t. os_fault ev t (Rename (srcname ev f) (dstname ev f)) = None"
    by simp
  from process_file_returns [OF this] obtain w1 where "process_file ev L f w = Inr w1"
    by blast
  moreover from Cons.prems Cons.IH [of w1] obtain w' where "process_files ev L fs w1 = Inr w'"
    by auto
  ultimately show ?case by simp
qed

lemma process_files_listdir:
  "listdir_calls (final_world (process_files ev L fs w)) = listdir_calls w"
proof (induction fs arbitrary: w)
  case Nil
  show ?case by (simp add: final_world_def)
next
  case (Cons f fs)
  have step: "listdir_calls (final_world (process_file ev L f w)) = listdir_calls w"
    by (rule process_file_effect(2)) simp
  show ?case
  proof (cases "process_file ev L f w")
    case (Inl x)
    with step show ?thesis by simp
  next
    case (Inr w1)
    with step have "listdir_calls w1 = listdir_calls w"
      by (simp add: final_world_def)
    with Inr Cons.IH [of w1] show ?thesis by simp
  qed
qed

text \<open>
  C4. A pass calls \<^verbatim>\<open>os.listdir\<close> on the unclaimed directory once. When the directory
  does not exist the pass returns 0 and raises nothing. A loop over a listing that returns
  at all returns the length of the listing, whatever happened to each file (claim lost,
  quarantined, enqueued), and it does return when no claiming rename fails with an errno
  other than \<^verbatim>\<open>ENOENT\<close>.
\<close>

theorem oneloop_count:
  "(os_fault ev (clock w) (Listdir (dir_new ev)) = None \<and> dirs w (dir_new ev) = None \<longrightarrow>
      oneloop ev w = Inr (0, tick (Listdir (dir_new ev)) w)) \<and>
   (oneloop_files ev L fs w = Inr (n, w') \<longrightarrow> n = length fs) \<and>
   (os_listdir ev (dir_new ev) w = (Inr fs, w1) \<longrightarrow>
      (oneloop ev w = Inr (n, w') \<longrightarrow>
         n = length fs \<and> listdir_calls w' = listdir_calls w @ [Listdir (dir_new ev)]) \<and>
      ((\<forall>t. \<forall>f \<in> set fs. os_fault ev t (Rename (srcname ev f) (dstname ev f)) = None) \<longrightarrow>
         (\<exists>w''. oneloop ev w = Inr (length fs, w''))))"
proof (intro conjI impI)
  assume "os_fault ev (clock w) (Listdir (dir_new ev)) = None \<and> dirs w (dir_new ev) = None"
  then show "oneloop ev w = Inr (0, tick (Listdir (dir_new ev)) w)"
    by (simp add: oneloop_def os_listdir_def)
next
  assume "oneloop_files ev L fs w = Inr (n, w')"
  then show "n = length fs"
    by (simp add: oneloop_files_def split: sum.splits)
next
  assume l: "os_listdir ev (dir_new ev) w = (Inr fs, w1)" and r: "oneloop ev w = Inr (n, w')"
  from l have w1: "w1 = tick (Listdir (dir_new ev)) w"
    by (simp add: os_listdir_def split: option.splits)
  from l r have pf: "process_files ev (list_names ev) fs w1 = Inr w'" and n: "n = length fs"
    by (simp_all add: oneloop_def oneloop_files_def split: sum.splits)
  show "n = length fs" by (rule n)
  from process_files_listdir [of ev "list_names ev" fs w1] pf
  have "listdir_calls w' = listdir_calls w1"
    by (simp add: final_world_def)
  then show "listdir_calls w' = listdir_calls w @ [Listdir (dir_new ev)]"
    unfolding w1 by (simp add: listdir_calls_tick)
next
  assume l: "os_listdir ev (dir_new ev) w = (Inr fs, w1)"
    and nf: "\<forall>t. \<forall>f \<in> set fs. os_fault ev t (Rename (srcname ev f) (dstname ev f)) = None"
  from process_files_returns [OF nf, of "list_names ev" w1] obtain w''
    where "process_files ev (list_names ev) fs w1 = Inr w''" by blast
  with l show "\<exists>w''. oneloop ev w = Inr (length fs, w'')"
    by (simp add: oneloop_def oneloop_files_def)
qed

lemmas run_defs =
  oneloop_def oneloop_files_def process_file_def process_claimed_def handle_failure_def
  os_listdir_def os_rename_def os_unlink_def os_makedirs_def load_message_def enqueue_def
  lookup_file_def clock_def tick_def syslog_def srcname_def dstname_def xdstname_def
  os_path_join_def os_path_join_str_def dir_new_def dir_cur_def path_str_def init_def init_body_def os_path_exists_def
  header_vals_def get_all_def lre_match_def match_tail_def match_literal_def is_delim_def
  subq_tokens_def lower_str_def lower_char_def select_def Let_def
  ev0_def ev_claim_fails_def ev_quarantine_fails_def ev_enqueue_fails_def ev_open_fails_def
  ev_open_quarantine_fail_def ev_makedirs_fails_def cfg0_def
  w_none_def w_files_def parseaddr_first_def parseaddr_strict_def parse_delivered_to_def

theorem oneloop_count_witness:
  "oneloop ev0 w_none = Inr (0, tick (Listdir ''/md/new'') w_none) \<and>
   (\<exists>w'. oneloop_files ev0 [''mylist''] [''gone'', ''m1'']
           (w_files [(''m1'', ''someone@othersite.example'')]) = Inr (2, w')) \<and>
   (\<exists>w'. oneloop ev0 (w_files [(''m1'', ''someone@othersite.example''),
                               (''m2'', ''mylist-confirm@example.com'')]) = Inr (2, w') \<and>
         listdir_calls w' = [Listdir ''/md/new''])"
proof -
  let ?w = "w_files [(''m1'', ''someone@othersite.example'')]"
  let ?v = "w_files [(''m1'', ''someone@othersite.example''),
                     (''m2'', ''mylist-confirm@example.com'')]"
  have new: "dir_new ev0 = ''/md/new''"
    by (simp add: dir_new_def os_path_join_str_def ev0_def cfg0_def)
  have absent: "os_fault ev0 (clock w_none) (Listdir (dir_new ev0)) = None \<and>
                dirs w_none (dir_new ev0) = None"
    by (simp add: ev0_def w_none_def)
  with oneloop_count [where ev = ev0 and w = w_none]
  have a: "oneloop ev0 w_none = Inr (0, tick (Listdir ''/md/new'') w_none)"
    unfolding new by blast
  obtain n w' where run: "oneloop_files ev0 [''mylist''] [''gone'', ''m1''] ?w = Inr (n, w')"
    by (cases "oneloop_files ev0 [''mylist''] [''gone'', ''m1''] ?w") (simp_all add: run_defs)
  with oneloop_count [where ev = ev0 and L = "[''mylist'']" and fs = "[''gone'', ''m1'']"
      and w = ?w and n = n and w' = w']
  have "n = 2" by simp
  with run have b: "\<exists>w'. oneloop_files ev0 [''mylist''] [''gone'', ''m1''] ?w = Inr (2, w')"
    by blast
  have listing: "os_listdir ev0 (dir_new ev0) ?v = (Inr [''m1'', ''m2''], tick (Listdir (dir_new ev0)) ?v)"
    by (simp add: os_listdir_def ev0_def cfg0_def dir_new_def os_path_join_str_def w_files_def)
  have nofault: "\<forall>t. \<forall>f \<in> set [''m1'', ''m2''].
      os_fault ev0 t (Rename (srcname ev0 f) (dstname ev0 f)) = None"
    by (simp add: ev0_def)
  from oneloop_count [where ev = ev0 and w = ?v and fs = "[''m1'', ''m2'']"
      and ?w1.0 = "tick (Listdir (dir_new ev0)) ?v"] listing nofault
  obtain w'' where run2: "oneloop ev0 ?v = Inr (length [''m1'', ''m2''], w'')"
    by blast
  from oneloop_count [where ev = ev0 and w = ?v and fs = "[''m1'', ''m2'']"
      and ?w1.0 = "tick (Listdir (dir_new ev0)) ?v" and n = "length [''m1'', ''m2'']"
      and w' = w''] listing run2
  have "listdir_calls w'' = listdir_calls ?v @ [Listdir (dir_new ev0)]"
    by blast
  then have "listdir_calls w'' = [Listdir ''/md/new'']"
    by (simp add: new listdir_calls_def w_files_def)
  with run2 have c: "\<exists>w'. oneloop ev0 ?v = Inr (2, w') \<and> listdir_calls w' = [Listdir ''/md/new'']"
    by auto
  from a b c show ?thesis by (intro conjI)
qed

section \<open>The states of a file across a pass\<close>

lemma other_file_paths:
  assumes "g \<noteq> f"
  shows "srcname ev f \<notin> {srcname ev g, dstname ev g, xdstname ev g}"
    and "dstname ev f \<notin> {srcname ev g, dstname ev g, xdstname ev g}"
    and "xdstname ev f \<notin> {srcname ev g, dstname ev g, xdstname ev g}"
  using assms
  by (simp_all add: srcname_def dstname_def xdstname_def os_path_join_def dir_new_neq_cur)

lemma present_states_cong:
  assumes "lookup_file w' (srcname ev f) = lookup_file w (srcname ev f)"
    and "lookup_file w' (dstname ev f) = lookup_file w (dstname ev f)"
    and "lookup_file w' (xdstname ev f) = lookup_file w (xdstname ev f)"
  shows "present_states ev w' f = present_states ev w f"
  using assms by (simp add: present_states_def)

lemma file_states_tick [simp]: "file_states ev (tick c w) f = file_states ev w f"
  by (simp add: file_states_def present_states_def)

lemma file_states_syslog [simp]: "file_states ev (syslog n fmt a w) f = file_states ev w f"
  by (simp add: file_states_def present_states_def)

lemma file_states_single:
  "(\<exists>s. file_states ev w f = [s]) = (length (present_states ev w f) \<le> 1)"
  by (cases "present_states ev w f") (auto simp add: file_states_def)

lemma process_file_other:
  assumes "g \<noteq> f"
  shows "present_states ev (final_world (process_file ev L g w)) f = present_states ev w f"
proof -
  let ?w' = "final_world (process_file ev L g w)"
  note o = other_file_paths [OF assms, of ev]
  have "lookup_file ?w' p = lookup_file w p"
    if "p \<notin> {srcname ev g, dstname ev g, xdstname ev g}" for p
    using process_file_effect(1) [of ?w' ev L g w] that by auto
  with o show ?thesis
    by (intro present_states_cong) blast+
qed

lemma process_file_same:
  assumes "length (present_states ev w f) \<le> 1"
  shows "length (present_states ev (final_world (process_file ev L f w)) f) \<le> 1"
    and "(\<forall>t. os_fault ev t (Rename (dstname ev f) (xdstname ev f)) = None) \<Longrightarrow>
         InProgress \<notin> set (present_states ev w f) \<Longrightarrow>
         InProgress \<notin> set (present_states ev (final_world (process_file ev L f w)) f)"
proof -
  let ?w' = "final_world (process_file ev L f w)"
  note d = file_paths_distinct [of ev f] file_paths_distinct [of ev f, symmetric]
  from process_file_effect(1) [of ?w' ev L f w]
  consider
    (same) "lookup_file ?w' = lookup_file w"
  | (left) data where "lookup_file w (srcname ev f) = Some data"
      "lookup_file ?w' = (lookup_file w)(srcname ev f := None, dstname ev f \<mapsto> data)"
      "\<exists>t. os_fault ev t (Rename (dstname ev f) (xdstname ev f)) \<noteq> None"
  | (quarantined) data where
      "lookup_file ?w' =
         (lookup_file w)(srcname ev f := None, dstname ev f := None, xdstname ev f \<mapsto> data)"
  | (removed) "lookup_file ?w' = (lookup_file w)(srcname ev f := None, dstname ev f := None)"
    by blast
  then have "length (present_states ev ?w' f) \<le> 1 \<and>
    ((\<forall>t. os_fault ev t (Rename (dstname ev f) (xdstname ev f)) = None) \<longrightarrow>
      InProgress \<notin> set (present_states ev w f) \<longrightarrow>
      InProgress \<notin> set (present_states ev ?w' f))"
  proof cases
    case same
    with assms show ?thesis by (simp add: present_states_def)
  next
    case left
    with assms d show ?thesis
      by (simp add: present_states_def split: if_splits)
  next
    case quarantined
    with d show ?thesis by (simp add: present_states_def)
  next
    case removed
    with d show ?thesis by (simp add: present_states_def)
  qed
  then show "length (present_states ev ?w' f) \<le> 1"
    and "(\<forall>t. os_fault ev t (Rename (dstname ev f) (xdstname ev f)) = None) \<Longrightarrow>
         InProgress \<notin> set (present_states ev w f) \<Longrightarrow>
         InProgress \<notin> set (present_states ev ?w' f)"
    by blast+
qed

lemma process_files_states:
  assumes "length (present_states ev w f) \<le> 1"
  shows "length (present_states ev (final_world (process_files ev L fs w)) f) \<le> 1 \<and>
         ((\<forall>t. os_fault ev t (Rename (dstname ev f) (xdstname ev f)) = None) \<longrightarrow>
          InProgress \<notin> set (present_states ev w f) \<longrightarrow>
          InProgress \<notin> set (present_states ev (final_world (process_files ev L fs w)) f))"
  using assms
proof (induction fs arbitrary: w)
  case Nil
  then show ?case by (simp add: final_world_def)
next
  case (Cons g fs)
  let ?w1 = "final_world (process_file ev L g w)"
  have step: "length (present_states ev ?w1 f) \<le> 1 \<and>
         ((\<forall>t. os_fault ev t (Rename (dstname ev f) (xdstname ev f)) = None) \<longrightarrow>
          InProgress \<notin> set (present_states ev w f) \<longrightarrow>
          InProgress \<notin> set (present_states ev ?w1 f))"
  proof (cases "g = f")
    case True
    with process_file_same [OF Cons.prems, of L] show ?thesis by blast
  next
    case False
    from process_file_other [OF this, of ev L w] Cons.prems show ?thesis by simp
  qed
  show ?case
  proof (cases "process_file ev L g w")
    case (Inl x)
    with step show ?thesis by simp
  next
    case (Inr w1)
    then have w1: "?w1 = w1" by (simp add: final_world_def)
    from step Cons.IH [of w1] Inr show ?thesis
      unfolding w1 by simp
  qed
qed

lemma load_message_ok:
  assumes "load_message ev p w = (Inr msg, w')"
  shows "\<exists>data. lookup_file w p = Some data \<and> message_from_binary_file ev data = Inr msg"
  using assms by (auto simp add: load_message_def split: option.splits)

lemma queues_rename:
  "os_rename ev src dst w = (r, w') \<Longrightarrow> queues w' = queues w"
  by (cases r) (auto dest: os_rename_failed os_rename_done(2))

lemma queues_unlink:
  "os_unlink ev p w = (r, w') \<Longrightarrow> queues w' = queues w"
  by (cases r) (auto dest: os_unlink_failed os_unlink_done(2))

lemma process_claimed_raises_queues:
  assumes "process_claimed ev L f w = Inl (e, w')"
  shows "\<exists>ys. queues w' = queues w @ ys"
  using assms unfolding process_claimed_def
  by (auto split: prod.splits sum.splits option.splits
      dest!: os_rename_failed os_unlink_failed load_message_world enqueue_failed enqueue_done)

lemma process_claimed_returns_queues:
  assumes "process_claimed ev L f w = Inr w'"
  shows "(lookup_file w' (xdstname ev f) \<noteq> None \<and> queues w' = queues w) \<or>
         (\<exists>data qdir msg md. lookup_file w (dstname ev f) = Some data \<and>
            message_from_binary_file ev data = Inr msg \<and>
            queues w' = queues w @ [(qdir, msg, md)])"
proof -
  from assms obtain r w1 where l: "load_message ev (dstname ev f) w = (r, w1)"
    by (cases "load_message ev (dstname ev f) w") simp
  then have w1: "w1 = tick (Open (dstname ev f)) w"
    by (rule load_message_world)
  from assms l obtain msg where r: "r = Inr msg"
    by (cases r) (simp_all add: process_claimed_def)
  from load_message_ok [OF l [unfolded r]] obtain data where
    data: "lookup_file w (dstname ev f) = Some data" "message_from_binary_file ev data = Inr msg"
    by blast
  have quarantine: "lookup_file w2 (xdstname ev f) \<noteq> None \<and> queues w2 = queues w"
    if "os_rename ev (dstname ev f) (xdstname ev f) (syslog n fmt a w1) = (None, w2)"
    for n fmt a w2
    using os_rename_done(1,2) [OF that] unfolding w1 by auto
  show ?thesis
  proof (cases "route (parseaddr ev) L (header_vals msg)")
    case None
    with assms l r
    have "os_rename ev (dstname ev f) (xdstname ev f)
            (syslog ''error'' ''Message apparently not for any list: %s''
               [S (path_str (xdstname ev f))] w1) = (None, w')"
      by (simp add: process_claimed_def split: prod.splits option.splits)
    from quarantine [OF this] show ?thesis by blast
  next
    case (Some m)
    obtain listname subq where m: "m = (listname, subq)" by (cases m)
    show ?thesis
    proof (cases "select (cfg ev) listname subq")
      case None
      with assms l r Some m
      have "os_rename ev (dstname ev f) (xdstname ev f)
              (syslog ''error'' ''Unknown sub-queue: %s''
                 [S (case subq of Some t \<Rightarrow> t | None \<Rightarrow> ''None'')] w1) = (None, w')"
        by (simp add: process_claimed_def split: prod.splits option.splits)
      from quarantine [OF this] show ?thesis by blast
    next
      case sel: (Some qm)
      obtain qdir md where qm: "qm = (qdir, md)" by (cases qm)
      from assms l r Some m sel qm obtain w2 w3 where
        e: "enqueue ev qdir msg md w1 = (None, w2)" and
        u: "os_unlink ev (dstname ev f) w2 = (None, w3)" and
        w': "w' = syslog ''debug'' ''Successfully processed maildir message: %s'' [S f] w3"
        by (auto simp add: process_claimed_def split: prod.splits option.splits)
      from e have w2: "w2 = tick (Enqueue qdir) (w1\<lparr>queues := queues w1 @ [(qdir, msg, md)]\<rparr>)"
        by (rule enqueue_done)
      from queues_unlink [OF u] have "queues w' = queues w @ [(qdir, msg, md)]"
        unfolding w' w2 w1 by simp
      with data show ?thesis by blast
    qed
  qed
qed

lemma handle_failure_queues: "queues (handle_failure ev f e w) = queues w"
proof -
  obtain r w2 where "os_rename ev (dstname ev f) (xdstname ev f)
      (syslog ''error'' ''Error processing maildir file %s: %s\<newline>Traceback:\<newline>%s''
         [S f, E e, Traceback e] w) = (r, w2)"
    by (cases "os_rename ev (dstname ev f) (xdstname ev f)
      (syslog ''error'' ''Error processing maildir file %s: %s\<newline>Traceback:\<newline>%s''
         [S f, E e, Traceback e] w)")
  from queues_rename [OF this] this show ?thesis
    by (simp add: handle_failure_def)
qed

lemma process_file_queues:
  "\<exists>ys. queues (final_world (process_file ev L g w)) = queues w @ ys"
proof -
  obtain r w1 where ren: "os_rename ev (srcname ev g) (dstname ev g) w = (r, w1)"
    by (cases "os_rename ev (srcname ev g) (dstname ev g) w")
  note q1 = queues_rename [OF ren]
  show ?thesis
  proof (cases r)
    case (Some x)
    with ren q1 show ?thesis
      by (simp add: process_file_def final_world_def)
  next
    case None
    show ?thesis
    proof (cases "process_claimed ev L g w1")
      case (Inl x)
      obtain e w2 where x: "x = (e, w2)" by (cases x)
      from process_claimed_raises_queues [OF Inl [unfolded x]] q1 Inl x ren None
      show ?thesis
        by (simp add: process_file_def final_world_def handle_failure_queues)
    next
      case (Inr w2)
      from process_claimed_returns_queues [OF Inr] q1 Inr ren None
      show ?thesis
        by (auto simp add: process_file_def final_world_def)
    qed
  qed
qed

lemma process_file_gone:
  assumes "lookup_file w (srcname ev f) = None"
  shows "lookup_file (final_world (process_file ev L f w)) = lookup_file w"
proof -
  obtain r w1 where ren: "os_rename ev (srcname ev f) (dstname ev f) w = (r, w1)"
    by (cases "os_rename ev (srcname ev f) (dstname ev f) w")
  show ?thesis
  proof (cases r)
    case None
    with ren have "os_rename ev (srcname ev f) (dstname ev f) w = (None, w1)" by simp
    from os_rename_done(1) [OF this] assms show ?thesis by simp
  next
    case (Some x)
    with ren have "w1 = tick (Rename (srcname ev f) (dstname ev f)) w"
      by (simp add: os_rename_failed)
    with ren Some show ?thesis
      by (simp add: process_file_def final_world_def)
  qed
qed

lemma process_file_removed:
  assumes src: "lookup_file w (srcname ev f) = Some data"
    and gone: "present_states ev (final_world (process_file ev L f w)) f = []"
  shows "\<exists>qdir msg md. message_from_binary_file ev data = Inr msg \<and>
           queues (final_world (process_file ev L f w)) = queues w @ [(qdir, msg, md)]"
proof -
  let ?w' = "final_world (process_file ev L f w)"
  note d = file_paths_distinct [of ev f] file_paths_distinct [of ev f, symmetric]
  from gone have absent: "lookup_file ?w' (srcname ev f) = None"
    "lookup_file ?w' (dstname ev f) = None" "lookup_file ?w' (xdstname ev f) = None"
    by (simp_all add: present_states_def split: if_splits)
  obtain r w1 where ren: "os_rename ev (srcname ev f) (dstname ev f) w = (r, w1)"
    by (cases "os_rename ev (srcname ev f) (dstname ev f) w")
  show ?thesis
  proof (cases r)
    case (Some x)
    with ren have "w1 = tick (Rename (srcname ev f) (dstname ev f)) w"
      by (simp add: os_rename_failed)
    with ren Some have "lookup_file ?w' = lookup_file w"
      by (simp add: process_file_def final_world_def)
    with src absent show ?thesis by simp
  next
    case None
    with ren have claimed: "os_rename ev (srcname ev f) (dstname ev f) w = (None, w1)" by simp
    from os_rename_done(1) [OF claimed] src
    have l1: "lookup_file w1 = (lookup_file w)(srcname ev f := None, dstname ev f \<mapsto> data)"
      by auto
    have q1: "queues w1 = queues w" by (rule os_rename_done(2) [OF claimed])
    have cur: "dirs w1 (dir_cur ev) \<noteq> None"
      using os_rename_done(6) [OF claimed] os_rename_done(7) [OF claimed, of "dir_cur ev"]
      by (simp add: dstname_def os_path_join_def)
    show ?thesis
    proof (cases "process_claimed ev L f w1")
      case (Inl x)
      obtain e w2 where x: "x = (e, w2)" by (cases x)
      from Inl x claimed have w': "?w' = handle_failure ev f e w2"
        by (simp add: process_file_def final_world_def)
      from process_claimed_raises(1,3) [OF Inl [unfolded x]] l1 cur
      have at: "lookup_file w2 (dstname ev f) = Some data" "dirs w2 (dir_cur ev) \<noteq> None"
        by simp_all
      from handle_failure_effect(1) [OF at, of e]
      have "lookup_file ?w' (dstname ev f) \<noteq> None \<or> lookup_file ?w' (xdstname ev f) \<noteq> None"
        unfolding w' using at(1) by auto
      with absent show ?thesis by simp
    next
      case (Inr w2)
      with claimed have w': "?w' = w2"
        by (simp add: process_file_def final_world_def)
      from process_claimed_returns_queues [OF Inr] absent l1 q1 show ?thesis
        unfolding w' by auto
    qed
  qed
qed

lemma final_world_simps [simp]:
  "final_world (Inr w) = w" "final_world (Inl (e, w)) = w"
  by (simp_all add: final_world_def)

lemma process_file_frame:
  assumes "g \<noteq> f" and "p \<in> {srcname ev f, dstname ev f, xdstname ev f}"
  shows "lookup_file (final_world (process_file ev L g w)) p = lookup_file w p"
proof -
  from other_file_paths [OF assms(1), of ev] assms(2)
  have "p \<notin> {srcname ev g, dstname ev g, xdstname ev g}" by auto
  with process_file_effect(1) [of "final_world (process_file ev L g w)" ev L g w]
  show ?thesis by auto
qed

lemma process_files_queues:
  "\<exists>ys. queues (final_world (process_files ev L fs w)) = queues w @ ys"
proof (induction fs arbitrary: w)
  case Nil
  show ?case by simp
next
  case (Cons g fs)
  from process_file_queues [of ev L g w] obtain ys where
    ys: "queues (final_world (process_file ev L g w)) = queues w @ ys" by blast
  show ?case
  proof (cases "process_file ev L g w")
    case (Inl x)
    with ys show ?thesis by simp
  next
    case (Inr w1)
    from Cons.IH [of w1] ys Inr show ?thesis
      by auto
  qed
qed

lemma process_files_gone:
  assumes "lookup_file w (srcname ev f) = None"
  shows "present_states ev (final_world (process_files ev L fs w)) f = present_states ev w f"
  using assms
proof (induction fs arbitrary: w)
  case Nil
  show ?case by simp
next
  case (Cons g fs)
  let ?w1 = "final_world (process_file ev L g w)"
  have keep: "lookup_file ?w1 p = lookup_file w p"
    if "p \<in> {srcname ev f, dstname ev f, xdstname ev f}" for p
  proof (cases "g = f")
    case True
    with process_file_gone [OF Cons.prems, of L] show ?thesis by simp
  next
    case False
    from process_file_frame [OF this that] show ?thesis .
  qed
  then have same: "present_states ev ?w1 f = present_states ev w f"
    by (intro present_states_cong) simp_all
  from keep [of "srcname ev f"] Cons.prems have gone: "lookup_file ?w1 (srcname ev f) = None"
    by simp
  show ?case
  proof (cases "process_file ev L g w")
    case (Inl x)
    with same show ?thesis by simp
  next
    case (Inr w1)
    with Cons.IH [of w1] gone same show ?thesis by simp
  qed
qed

lemma process_files_removed:
  assumes "lookup_file w (srcname ev f) = Some data"
    and "present_states ev (final_world (process_files ev L fs w)) f = []"
  shows "\<exists>qdir msg md. message_from_binary_file ev data = Inr msg \<and>
           (qdir, msg, md) \<in> set (drop (length (queues w))
                                    (queues (final_world (process_files ev L fs w))))"
  using assms
proof (induction fs arbitrary: w)
  case Nil
  then show ?case by (simp add: present_states_def)
next
  case (Cons g fs)
  let ?w1 = "final_world (process_file ev L g w)"
  let ?fin = "final_world (process_files ev L (g # fs) w)"
  from process_file_queues [of ev L g w] obtain ys where
    ys: "queues ?w1 = queues w @ ys" by blast
  have later: "set (drop (length (queues ?w1)) xs) \<subseteq> set (drop (length (queues w)) xs)" for xs
    unfolding ys by (simp add: set_drop_subset_set_drop)
  have continue: ?case if src1: "lookup_file ?w1 (srcname ev f) = Some data"
  proof (cases "process_file ev L g w")
    case (Inl x)
    with Cons.prems(2) have "present_states ev ?w1 f = []" by simp
    with src1 show ?thesis by (simp add: present_states_def)
  next
    case (Inr w1)
    with Cons.prems(2) src1 have "present_states ev (final_world (process_files ev L fs w1)) f = []"
      "lookup_file w1 (srcname ev f) = Some data"
      by simp_all
    from Cons.IH [OF this(2) this(1)] later [of "queues (final_world (process_files ev L fs w1))"] Inr
    show ?thesis
      by auto
  qed
  show ?case
  proof (cases "g = f")
    case False
    from process_file_frame [OF this, of "srcname ev f" ev L w] Cons.prems(1)
    have "lookup_file ?w1 (srcname ev f) = Some data" by simp
    then show ?thesis by (rule continue)
  next
    case True
    show ?thesis
    proof (cases "lookup_file ?w1 (srcname ev f)")
      case (Some data')
      with process_file_effect(1) [of ?w1 ev L f w] True
        file_paths_distinct [of ev f] file_paths_distinct [of ev f, symmetric]
      have "lookup_file ?w1 = lookup_file w" by auto
      with Cons.prems(1) have "lookup_file ?w1 (srcname ev f) = Some data" by simp
      then show ?thesis by (rule continue)
    next
      case None
      have fin: "present_states ev ?fin f = present_states ev ?w1 f"
      proof (cases "process_file ev L g w")
        case (Inl x)
        then show ?thesis by simp
      next
        case (Inr w1)
        with process_files_gone [of w1 ev f L fs] None show ?thesis by simp
      qed
      with Cons.prems(2) have "present_states ev ?w1 f = []" by simp
      with process_file_removed [OF Cons.prems(1), of L] True
      obtain qdir msg md where m: "message_from_binary_file ev data = Inr msg"
        and q: "queues ?w1 = queues w @ [(qdir, msg, md)]" by auto
      have "\<exists>zs. queues ?fin = queues ?w1 @ zs"
      proof (cases "process_file ev L g w")
        case (Inl x)
        then show ?thesis by simp
      next
        case (Inr w1)
        with process_files_queues [of ev L fs w1] show ?thesis by simp
      qed
      with q have "(qdir, msg, md) \<in> set (drop (length (queues w)) (queues ?fin))"
        by auto
      with m show ?thesis by blast
    qed
  qed
qed

lemma present_states_range: "set (present_states ev w f) \<subseteq> {Unclaimed, InProgress, Quarantined}"
  by (auto simp add: present_states_def)

lemma file_states_removed: "(file_states ev w f = [Removed]) = (present_states ev w f = [])"
  using present_states_range [of ev w f]
  by (cases "present_states ev w f") (auto simp add: file_states_def)

lemma file_states_settled:
  assumes "length (present_states ev w f) \<le> 1" and "InProgress \<notin> set (present_states ev w f)"
  shows "file_states ev w f \<in> {[Unclaimed], [Quarantined], [Removed]}"
proof (cases "present_states ev w f")
  case Nil
  then show ?thesis by (simp add: file_states_def)
next
  case (Cons s ss)
  with assms(1) have ss: "ss = []" by simp
  from present_states_range [of ev w f] Cons assms(2) have "s = Unclaimed \<or> s = Quarantined"
    by auto
  with Cons ss show ?thesis by (auto simp add: file_states_def)
qed

lemma file_states_unclaimed:
  assumes "file_states ev w f = [Unclaimed]"
  shows "length (present_states ev w f) \<le> 1" and "InProgress \<notin> set (present_states ev w f)"
    and "lookup_file w (srcname ev f) \<noteq> None"
  using assms by (simp_all add: file_states_def present_states_def split: if_splits)

section \<open>Failures after the claim\<close>

lemma handle_failure_log:
  "log (handle_failure ev f e w) =
     log w @ [(''error'', ''Error processing maildir file %s: %s\<newline>Traceback:\<newline>%s'',
               [S f, E e, Traceback e])]"
  and handle_failure_calls:
  "calls (handle_failure ev f e w) = calls w @ [Rename (dstname ev f) (xdstname ev f)]"
proof -
  let ?w1 = "syslog ''error'' ''Error processing maildir file %s: %s\<newline>Traceback:\<newline>%s''
               [S f, E e, Traceback e] w"
  obtain r w2 where ren: "os_rename ev (dstname ev f) (xdstname ev f) ?w1 = (r, w2)"
    by (cases "os_rename ev (dstname ev f) (xdstname ev f) ?w1")
  then have h: "handle_failure ev f e w = w2"
    by (simp add: handle_failure_def)
  have "log w2 = log ?w1 \<and> calls w2 = calls ?w1 @ [Rename (dstname ev f) (xdstname ev f)]"
  proof (cases r)
    case None
    with ren have "os_rename ev (dstname ev f) (xdstname ev f) ?w1 = (None, w2)" by simp
    from os_rename_done(3,4) [OF this] show ?thesis by simp
  next
    case (Some x)
    with ren have "os_rename ev (dstname ev f) (xdstname ev f) ?w1 = (Some x, w2)" by simp
    from os_rename_failed [OF this] show ?thesis by simp
  qed
  with h show "log (handle_failure ev f e w) =
     log w @ [(''error'', ''Error processing maildir file %s: %s\<newline>Traceback:\<newline>%s'',
               [S f, E e, Traceback e])]"
    and "calls (handle_failure ev f e w) = calls w @ [Rename (dstname ev f) (xdstname ev f)]"
    by simp_all
qed

text \<open>
  C6, as the code has it. A failure to load the message and a failure to enqueue it are
  exceptions of the body. After a claim that succeeded, an exception of the body never
  leaves the turn: the loop goes on with the next file. The handler logs the exception once
  and makes one rename to the \<^verbatim>\<open>:1,X\<close> name. Either that rename moves the file, or it
  fails, and then the file stays where it was and nothing more is logged.
\<close>

theorem failure_after_claim:
  "(load_message ev (dstname ev f) w1 = (Inl e, w2) \<longrightarrow>
      process_claimed ev L f w1 = Inl (e, w2)) \<and>
   (load_message ev (dstname ev f) w1 = (Inr msg, wl) \<and>
    route (parseaddr ev) L (header_vals msg) = Some (l, sq) \<and>
    select (cfg ev) l sq = Some (q, md) \<and>
    enqueue ev q msg md wl = (Some e, w2) \<longrightarrow>
      process_claimed ev L f w1 = Inl (e, w2)) \<and>
   (os_rename ev (srcname ev f) (dstname ev f) w = (None, w1) \<and>
    process_claimed ev L f w1 = Inl (e, w2) \<longrightarrow>
      process_file ev L f w = Inr (handle_failure ev f e w2) \<and>
      process_files ev L (f # fs) w = process_files ev L fs (handle_failure ev f e w2) \<and>
      log (handle_failure ev f e w2) =
        log w2 @ [(''error'', ''Error processing maildir file %s: %s\<newline>Traceback:\<newline>%s'',
                   [S f, E e, Traceback e])] \<and>
      calls (handle_failure ev f e w2) = calls w2 @ [Rename (dstname ev f) (xdstname ev f)] \<and>
      queues (handle_failure ev f e w2) = queues w2 \<and>
      (\<exists>data. lookup_file w2 (dstname ev f) = Some data \<and>
         (lookup_file (handle_failure ev f e w2) =
            (lookup_file w2)(dstname ev f := None, xdstname ev f \<mapsto> data) \<or>
          lookup_file (handle_failure ev f e w2) = lookup_file w2 \<and>
            (\<exists>t. os_fault ev t (Rename (dstname ev f) (xdstname ev f)) \<noteq> None))))"
proof (intro conjI impI)
  assume "load_message ev (dstname ev f) w1 = (Inl e, w2)"
  then show "process_claimed ev L f w1 = Inl (e, w2)"
    by (simp add: process_claimed_def)
next
  assume "load_message ev (dstname ev f) w1 = (Inr msg, wl) \<and>
    route (parseaddr ev) L (header_vals msg) = Some (l, sq) \<and>
    select (cfg ev) l sq = Some (q, md) \<and>
    enqueue ev q msg md wl = (Some e, w2)"
  then show "process_claimed ev L f w1 = Inl (e, w2)"
    by (simp add: process_claimed_def)
next
  assume a: "os_rename ev (srcname ev f) (dstname ev f) w = (None, w1) \<and>
    process_claimed ev L f w1 = Inl (e, w2)"
  then have claimed: "os_rename ev (srcname ev f) (dstname ev f) w = (None, w1)"
    and raised: "process_claimed ev L f w1 = Inl (e, w2)" by simp_all
  from claimed raised show pf: "process_file ev L f w = Inr (handle_failure ev f e w2)"
    by (simp add: process_file_def)
  then show "process_files ev L (f # fs) w = process_files ev L fs (handle_failure ev f e w2)"
    by simp
  show "log (handle_failure ev f e w2) =
        log w2 @ [(''error'', ''Error processing maildir file %s: %s\<newline>Traceback:\<newline>%s'',
                   [S f, E e, Traceback e])]"
    by (rule handle_failure_log)
  show "calls (handle_failure ev f e w2) = calls w2 @ [Rename (dstname ev f) (xdstname ev f)]"
    by (rule handle_failure_calls)
  show "queues (handle_failure ev f e w2) = queues w2"
    by (rule handle_failure_queues)
  from os_rename_done(1) [OF claimed] obtain data where
    l1: "lookup_file w1 (dstname ev f) = Some data" by auto
  have cur: "dirs w1 (dir_cur ev) \<noteq> None"
    using os_rename_done(6) [OF claimed] os_rename_done(7) [OF claimed, of "dir_cur ev"]
    by (simp add: dstname_def os_path_join_def)
  from process_claimed_raises(1,3) [OF raised] l1 cur
  have at: "lookup_file w2 (dstname ev f) = Some data" "dirs w2 (dir_cur ev) \<noteq> None"
    by simp_all
  from handle_failure_effect(1) [OF at, of e] at(1)
  show "\<exists>data. lookup_file w2 (dstname ev f) = Some data \<and>
         (lookup_file (handle_failure ev f e w2) =
            (lookup_file w2)(dstname ev f := None, xdstname ev f \<mapsto> data) \<or>
          lookup_file (handle_failure ev f e w2) = lookup_file w2 \<and>
            (\<exists>t. os_fault ev t (Rename (dstname ev f) (xdstname ev f)) \<noteq> None))"
    by blast
qed

section \<open>The recipient router\<close>

lemma route_find:
  "route p L vals =
     List.find (\<lambda>m. fst m \<in> set L) (List.map_filter lre_match (candidates p vals))"
proof (induction vals)
  case Nil
  show ?case by (simp add: candidates_def map_filter_simps)
next
  case (Cons field vals)
  show ?case
  proof (cases "p field = []")
    case True
    with Cons show ?thesis by (simp add: candidates_def)
  next
    case False
    show ?thesis
    proof (cases "lre_match (p field)")
      case None
      with False Cons show ?thesis
        by (simp add: candidates_def map_filter_simps)
    next
      case (Some m)
      obtain listname subq where "m = (listname, subq)" by (cases m)
      with Some False Cons show ?thesis
        by (simp add: candidates_def map_filter_simps)
    qed
  qed
qed

lemma get_all_append: "get_all (m1 @ m2) name = get_all m1 name @ get_all m2 name"
  by (simp add: get_all_def)

text \<open>
  C1. The header values are those of \<open>Delivered-To\<close>, \<open>Envelope-To\<close>, \<open>Apparently-To\<close>,
  in that order, each header's values in the order of the message. The router's result is
  the first match with a valid list name among the pattern matches of the non-empty
  extracted addresses. When there is none, the claimed file whose message was loaded is
  renamed to its \<^verbatim>\<open>:1,X\<close> name (if that rename is not refused), one log entry is written,
  nothing is enqueued, and the loop goes on with the next file.
\<close>

theorem route_first_valid:
  "header_vals msg =
     get_all msg ''delivered-to'' @ get_all msg ''envelope-to'' @ get_all msg ''apparently-to'' \<and>
   get_all (m1 @ m2) name = get_all m1 name @ get_all m2 name \<and>
   route p L vals =
     List.find (\<lambda>m. fst m \<in> set L) (List.map_filter lre_match (candidates p vals)) \<and>
   (os_rename ev (srcname ev f) (dstname ev f) w = (None, w1) \<and>
    load_message ev (dstname ev f) w1 = (Inr msg, w2) \<and>
    route (parseaddr ev) L (header_vals msg) = None \<and>
    os_fault ev (clock w2) (Rename (dstname ev f) (xdstname ev f)) = None \<longrightarrow>
      (\<exists>w3 data.
         process_file ev L f w = Inr w3 \<and>
         process_files ev L (f # fs) w = process_files ev L fs w3 \<and>
         lookup_file w (srcname ev f) = Some data \<and>
         lookup_file w3 =
           (lookup_file w)(srcname ev f := None, dstname ev f := None, xdstname ev f \<mapsto> data) \<and>
         log w3 = log w @ [(''error'', ''Message apparently not for any list: %s'',
                            [S (path_str (xdstname ev f))])] \<and>
         queues w3 = queues w))"
proof (intro conjI impI)
  show "header_vals msg =
     get_all msg ''delivered-to'' @ get_all msg ''envelope-to'' @ get_all msg ''apparently-to''"
    by (simp only: header_vals_def)
  show "get_all (m1 @ m2) name = get_all m1 name @ get_all m2 name"
    by (rule get_all_append)
  show "route p L vals =
     List.find (\<lambda>m. fst m \<in> set L) (List.map_filter lre_match (candidates p vals))"
    by (rule route_find)
next
  assume a: "os_rename ev (srcname ev f) (dstname ev f) w = (None, w1) \<and>
    load_message ev (dstname ev f) w1 = (Inr msg, w2) \<and>
    route (parseaddr ev) L (header_vals msg) = None \<and>
    os_fault ev (clock w2) (Rename (dstname ev f) (xdstname ev f)) = None"
  then have claimed: "os_rename ev (srcname ev f) (dstname ev f) w = (None, w1)"
    and load: "load_message ev (dstname ev f) w1 = (Inr msg, w2)"
    and noroute: "route (parseaddr ev) L (header_vals msg) = None"
    and nofault: "os_fault ev (clock w2) (Rename (dstname ev f) (xdstname ev f)) = None"
    by simp_all
  let ?w2' = "syslog ''error'' ''Message apparently not for any list: %s''
                [S (path_str (xdstname ev f))] w2"
  from os_rename_done(1) [OF claimed] obtain data where
    src: "lookup_file w (srcname ev f) = Some data" and
    l1: "lookup_file w1 = (lookup_file w)(srcname ev f := None, dstname ev f \<mapsto> data)"
    by blast
  have w2: "w2 = tick (Open (dstname ev f)) w1"
    by (rule load_message_world [OF load])
  have cur: "dirs w1 (fst (xdstname ev f)) \<noteq> None"
    using os_rename_done(6) [OF claimed] os_rename_done(7) [OF claimed, of "dir_cur ev"]
    by (simp add: dstname_def xdstname_def os_path_join_def)
  have "fst (os_rename ev (dstname ev f) (xdstname ev f) ?w2') = None"
    using nofault l1 cur unfolding w2
    by (intro os_rename_succeeds [where data = data]) simp_all
  then obtain w3 where q: "os_rename ev (dstname ev f) (xdstname ev f) ?w2' = (None, w3)"
    by (cases "os_rename ev (dstname ev f) (xdstname ev f) ?w2'") simp
  from load noroute q have body: "process_claimed ev L f w1 = Inr w3"
    by (simp add: process_claimed_def)
  with claimed have pf: "process_file ev L f w = Inr w3"
    by (simp add: process_file_def)
  from os_rename_done(1) [OF q] l1
  have l3: "lookup_file w3 =
     (lookup_file w)(srcname ev f := None, dstname ev f := None, xdstname ev f \<mapsto> data)"
    unfolding w2 by auto
  from os_rename_done(2,3) [OF q] os_rename_done(2,3) [OF claimed]
  have "log w3 = log w @ [(''error'', ''Message apparently not for any list: %s'',
                            [S (path_str (xdstname ev f))])]" and "queues w3 = queues w"
    unfolding w2 by simp_all
  with pf src l3 show "\<exists>w3 data.
         process_file ev L f w = Inr w3 \<and>
         process_files ev L (f # fs) w = process_files ev L fs w3 \<and>
         lookup_file w (srcname ev f) = Some data \<and>
         lookup_file w3 =
           (lookup_file w)(srcname ev f := None, dstname ev f := None, xdstname ev f \<mapsto> data) \<and>
         log w3 = log w @ [(''error'', ''Message apparently not for any list: %s'',
                            [S (path_str (xdstname ev f))])] \<and>
         queues w3 = queues w"
    by simp
qed

theorem route_first_valid_witness:
  "route parseaddr_first [''mylist'']
     (header_vals [(''Apparently-To'', ''mylist-owner@example.com''),
                   (''Delivered-To'', ''someone@othersite.example''),
                   (''Envelope-to'', ''''),
                   (''DELIVERED-TO'', ''mylist-confirm@example.com'')]) =
     Some (''mylist'', Some ''confirm'') \<and>
   (\<exists>w3. process_file ev0 [''mylist''] ''m1'' (w_files [(''m1'', ''someone@othersite.example'')]) =
           Inr w3 \<and>
         lookup_file w3 (''/md/cur'', ''m1:1,X'') = Some ''someone@othersite.example'' \<and>
         lookup_file w3 (''/md/cur'', ''m1:1,P'') = None \<and>
         lookup_file w3 (''/md/new'', ''m1'') = None \<and>
         log w3 = [(''error'', ''Message apparently not for any list: %s'', [S ''/md/cur/m1:1,X''])] \<and>
         queues w3 = [])"
proof -
  let ?hs = "[(''Apparently-To'', ''mylist-owner@example.com''),
              (''Delivered-To'', ''someone@othersite.example''),
              (''Envelope-to'', ''''),
              (''DELIVERED-TO'', ''mylist-confirm@example.com'')]"
  have cands: "List.map_filter lre_match (candidates parseaddr_first (header_vals ?hs)) =
     [(''someone'', None), (''mylist'', Some ''confirm''), (''mylist'', Some ''owner'')]"
    by (simp add: run_defs candidates_def map_filter_simps)
  from route_first_valid [where p = parseaddr_first and L = "[''mylist'']" and vals = "header_vals ?hs"]
  have "route parseaddr_first [''mylist''] (header_vals ?hs) =
     List.find (\<lambda>m. fst m \<in> set [''mylist''])
       (List.map_filter lre_match (candidates parseaddr_first (header_vals ?hs)))"
    by blast
  then have a: "route parseaddr_first [''mylist''] (header_vals ?hs) = Some (''mylist'', Some ''confirm'')"
    unfolding cands by simp
  let ?W = "w_files [(''m1'', ''someone@othersite.example'')]"
  let ?w1 = "snd (os_rename ev0 (srcname ev0 ''m1'') (dstname ev0 ''m1'') ?W)"
  let ?msg = "[(''Delivered-To'', ''someone@othersite.example'')]"
  let ?w2 = "snd (load_message ev0 (dstname ev0 ''m1'') ?w1)"
  have names: "srcname ev0 ''m1'' = (''/md/new'', ''m1'')"
    "dstname ev0 ''m1'' = (''/md/cur'', ''m1:1,P'')" "xdstname ev0 ''m1'' = (''/md/cur'', ''m1:1,X'')"
    by (simp_all add: run_defs)
  have hyp: "os_rename ev0 (srcname ev0 ''m1'') (dstname ev0 ''m1'') ?W = (None, ?w1) \<and>
    load_message ev0 (dstname ev0 ''m1'') ?w1 = (Inr ?msg, ?w2) \<and>
    route (parseaddr ev0) [''mylist''] (header_vals ?msg) = None \<and>
    os_fault ev0 (clock ?w2) (Rename (dstname ev0 ''m1'') (xdstname ev0 ''m1'')) = None"
    by (simp add: run_defs)
  from route_first_valid [where ev = ev0 and f = "''m1''" and w = ?W and ?w1.0 = ?w1
      and msg = ?msg and ?w2.0 = ?w2 and L = "[''mylist'']"] hyp
  obtain w3 data where r:
    "process_file ev0 [''mylist''] ''m1'' ?W = Inr w3"
    "lookup_file ?W (srcname ev0 ''m1'') = Some data"
    "lookup_file w3 =
       (lookup_file ?W)(srcname ev0 ''m1'' := None, dstname ev0 ''m1'' := None,
                        xdstname ev0 ''m1'' \<mapsto> data)"
    "log w3 = log ?W @ [(''error'', ''Message apparently not for any list: %s'',
                        [S (path_str (xdstname ev0 ''m1''))])]"
    "queues w3 = queues ?W"
    by blast
  have "lookup_file ?W (srcname ev0 ''m1'') = Some ''someone@othersite.example''"
    by (simp add: run_defs)
  with r(2) have data: "data = ''someone@othersite.example''" by simp
  have start: "log ?W = []" "queues ?W = []" "path_str (''/md/cur'', ''m1:1,X'') = ''/md/cur/m1:1,X''"
    by (simp_all add: w_files_def path_str_def os_path_join_str_def)
  from r(1,3,4,5) have "process_file ev0 [''mylist''] ''m1'' ?W = Inr w3 \<and>
         lookup_file w3 (''/md/cur'', ''m1:1,X'') = Some ''someone@othersite.example'' \<and>
         lookup_file w3 (''/md/cur'', ''m1:1,P'') = None \<and>
         lookup_file w3 (''/md/new'', ''m1'') = None \<and>
         log w3 = [(''error'', ''Message apparently not for any list: %s'', [S ''/md/cur/m1:1,X''])] \<and>
         queues w3 = []"
    unfolding names data start by simp
  with a show ?thesis by blast
qed

section \<open>Construction of the runner\<close>

lemma os_makedirs_done:
  assumes "os_makedirs ev d w = (None, w')"
  shows "dirs w' = (dirs w)(d \<mapsto> [])"
  using assms by (auto simp add: os_makedirs_def split: option.splits)

lemma init_body_dirs:
  assumes "init_body ev w = Inr w'"
  shows "dirs w' (dir_new ev) \<noteq> None" and "dirs w' (dir_cur ev) \<noteq> None"
    and "\<And>d. dirs w d \<noteq> None \<Longrightarrow> dirs w' d = dirs w d"
proof -
  let ?w1 = "tick RunnerInit w"
  let ?m1 = "if \<not> os_path_exists ?w1 (dir_new ev) then os_makedirs ev (dir_new ev) ?w1
             else (None, ?w1)"
  from assms obtain w2 where m1: "?m1 = (None, w2)"
    by (cases ?m1) (auto simp add: init_body_def Let_def split: option.splits)
  let ?m2 = "if \<not> os_path_exists w2 (dir_cur ev) then os_makedirs ev (dir_cur ev) w2
             else (None, w2)"
  from assms m1 obtain w3 where m2: "?m2 = (None, w3)"
    and w': "w' = syslog ''debug'' ''MaildirRunner: Initialization complete'' [] w3"
    by (cases ?m2) (auto simp add: init_body_def Let_def split: option.splits)
  have d2: "dirs w2 = (if dirs w (dir_new ev) = None then (dirs w)(dir_new ev \<mapsto> []) else dirs w)"
    using m1 by (auto simp add: os_path_exists_def dest: os_makedirs_done split: if_splits)
  have d3: "dirs w3 = (if dirs w2 (dir_cur ev) = None then (dirs w2)(dir_cur ev \<mapsto> []) else dirs w2)"
    using m2 by (auto simp add: os_path_exists_def dest: os_makedirs_done split: if_splits)
  show "dirs w' (dir_new ev) \<noteq> None" and "dirs w' (dir_cur ev) \<noteq> None"
    unfolding w' by (auto simp add: d2 d3)
  show "dirs w' d = dirs w d" if "dirs w d \<noteq> None" for d
    using that unfolding w' by (auto simp add: d2 d3)
qed

lemma init_body_returns:
  assumes "lib_fault ev (clock w) RunnerInit = None" and "\<forall>t d. os_fault ev t (Makedirs d) = None"
  shows "\<exists>w'. init_body ev w = Inr w'"
  using assms
  by (simp add: init_body_def Let_def os_makedirs_def os_path_exists_def split: option.splits)

text \<open>
  C10. A constructor that returns leaves both \<^verbatim>\<open>new/\<close> and \<^verbatim>\<open>cur/\<close> in existence and
  the directories that existed untouched, so a listing of \<^verbatim>\<open>new/\<close> made then does not
  fail with \<^verbatim>\<open>ENOENT\<close>. An exception raised inside the constructor leaves it as the same
  exception, after an error entry in the log that names it. With no failure of
  \<^verbatim>\<open>Runner.__init__\<close> or \<^verbatim>\<open>os.makedirs\<close> the constructor returns.
\<close>

theorem init_creates_dirs:
  "(init ev w = Inr w' \<longrightarrow>
      os_path_exists w' (dir_new ev) \<and> os_path_exists w' (dir_cur ev) \<and>
      (\<forall>d. os_path_exists w d \<longrightarrow> dirs w' d = dirs w d) \<and>
      fst (os_listdir ev (dir_new ev) w') \<noteq> Inl ENOENT) \<and>
   (init_body ev (syslog ''debug'' ''MaildirRunner: Starting initialization'' [] w) = Inl (e, w1)
      \<longrightarrow>
      init ev w =
        Inl (e, syslog ''error'' ''MaildirRunner: Initialization failed: %s\<newline>Traceback:\<newline>%s''
                  [E e, Traceback e] w1)) \<and>
   (init ev w = Inl (e, w') \<longrightarrow>
      last (log w') =
        (''error'', ''MaildirRunner: Initialization failed: %s\<newline>Traceback:\<newline>%s'',
         [E e, Traceback e])) \<and>
   (lib_fault ev (clock w) RunnerInit = None \<and> (\<forall>t d. os_fault ev t (Makedirs d) = None) \<longrightarrow>
      (\<exists>w''. init ev w = Inr w''))"
proof (intro conjI impI)
  let ?w0 = "syslog ''debug'' ''MaildirRunner: Starting initialization'' [] w"
  assume r: "init ev w = Inr w'"
  then have b: "init_body ev ?w0 = Inr w'"
    by (simp add: init_def split: sum.splits prod.splits)
  note d = init_body_dirs [OF b]
  from d(1) show new: "os_path_exists w' (dir_new ev)" by (simp add: os_path_exists_def)
  from d(2) show "os_path_exists w' (dir_cur ev)" by (simp add: os_path_exists_def)
  from d(3) show "\<forall>d. os_path_exists w d \<longrightarrow> dirs w' d = dirs w d"
    by (simp add: os_path_exists_def)
  from new show "fst (os_listdir ev (dir_new ev) w') \<noteq> Inl ENOENT"
    by (auto simp add: os_listdir_def os_path_exists_def split: option.splits)
next
  assume "init_body ev (syslog ''debug'' ''MaildirRunner: Starting initialization'' [] w) = Inl (e, w1)"
  then show "init ev w =
        Inl (e, syslog ''error'' ''MaildirRunner: Initialization failed: %s\<newline>Traceback:\<newline>%s''
                  [E e, Traceback e] w1)"
    by (simp add: init_def)
next
  assume "init ev w = Inl (e, w')"
  then show "last (log w') =
        (''error'', ''MaildirRunner: Initialization failed: %s\<newline>Traceback:\<newline>%s'',
         [E e, Traceback e])"
    by (auto simp add: init_def split: sum.splits prod.splits)
next
  assume "lib_fault ev (clock w) RunnerInit = None \<and> (\<forall>t d. os_fault ev t (Makedirs d) = None)"
  then have "\<exists>w'. init_body ev (syslog ''debug'' ''MaildirRunner: Starting initialization'' [] w) = Inr w'"
    by (intro init_body_returns) simp_all
  then show "\<exists>w''. init ev w = Inr w''"
    by (auto simp add: init_def)
qed

theorem init_creates_dirs_witness:
  "(\<exists>w'. init ev0 w_none = Inr w' \<and> dirs w' ''/md/new'' = Some [] \<and> dirs w' ''/md/cur'' = Some [] \<and>
         fst (os_listdir ev0 ''/md/new'' w') = Inr []) \<and>
   (\<exists>w'. init ev_makedirs_fails w_none = Inl (OSError (EOTHER 13), w') \<and>
         last (log w') =
           (''error'', ''MaildirRunner: Initialization failed: %s\<newline>Traceback:\<newline>%s'',
            [E (OSError (EOTHER 13)), Traceback (OSError (EOTHER 13))]))"
proof -
  have nofault: "lib_fault ev0 (clock w_none) RunnerInit = None \<and>
                 (\<forall>t d. os_fault ev0 t (Makedirs d) = None)"
    by (simp add: ev0_def)
  with init_creates_dirs [where ev = ev0 and w = w_none]
  obtain w' where ok: "init ev0 w_none = Inr w'" by blast
  have names: "dir_new ev0 = ''/md/new''" "dir_cur ev0 = ''/md/cur''"
    by (simp_all add: run_defs)
  from init_creates_dirs [where ev = ev0 and w = w_none and w' = w'] ok
  have ex: "os_path_exists w' ''/md/new''" "os_path_exists w' ''/md/cur''"
    "fst (os_listdir ev0 ''/md/new'' w') \<noteq> Inl ENOENT"
    unfolding names by blast+
  from ok have "dirs w' ''/md/new'' = Some []" "dirs w' ''/md/cur'' = Some []"
    by (auto simp add: run_defs)
  moreover from this have "fst (os_listdir ev0 ''/md/new'' w') = Inr []"
    by (simp add: os_listdir_def ev0_def)
  ultimately have a: "\<exists>w'. init ev0 w_none = Inr w' \<and> dirs w' ''/md/new'' = Some [] \<and>
         dirs w' ''/md/cur'' = Some [] \<and> fst (os_listdir ev0 ''/md/new'' w') = Inr []"
    using ok by blast
  let ?w0 = "syslog ''debug'' ''MaildirRunner: Starting initialization'' [] w_none"
  let ?w1 = "snd (os_makedirs ev_makedirs_fails ''/md/new'' (tick RunnerInit ?w0))"
  have raised: "init_body ev_makedirs_fails ?w0 = Inl (OSError (EOTHER 13), ?w1)"
    by (simp add: run_defs)
  from init_creates_dirs [where ev = ev_makedirs_fails and w = w_none and e = "OSError (EOTHER 13)"
      and ?w1.0 = ?w1] raised
  have failed: "init ev_makedirs_fails w_none =
        Inl (OSError (EOTHER 13),
             syslog ''error'' ''MaildirRunner: Initialization failed: %s\<newline>Traceback:\<newline>%s''
               [E (OSError (EOTHER 13)), Traceback (OSError (EOTHER 13))] ?w1)"
    by blast
  from init_creates_dirs [where ev = ev_makedirs_fails and w = w_none and e = "OSError (EOTHER 13)"
      and w' = "syslog ''error'' ''MaildirRunner: Initialization failed: %s\<newline>Traceback:\<newline>%s''
               [E (OSError (EOTHER 13)), Traceback (OSError (EOTHER 13))] ?w1"] failed
  have "last (log (syslog ''error'' ''MaildirRunner: Initialization failed: %s\<newline>Traceback:\<newline>%s''
               [E (OSError (EOTHER 13)), Traceback (OSError (EOTHER 13))] ?w1)) =
           (''error'', ''MaildirRunner: Initialization failed: %s\<newline>Traceback:\<newline>%s'',
            [E (OSError (EOTHER 13)), Traceback (OSError (EOTHER 13))])"
    by blast
  with failed have b: "\<exists>w'. init ev_makedirs_fails w_none = Inl (OSError (EOTHER 13), w') \<and>
         last (log w') =
           (''error'', ''MaildirRunner: Initialization failed: %s\<newline>Traceback:\<newline>%s'',
            [E (OSError (EOTHER 13)), Traceback (OSError (EOTHER 13))])"
    by blast
  from a b show ?thesis by (intro conjI)
qed

section \<open>One candidate for each header value\<close>

lemma route_map: "route p L vals = route (\<lambda>a. a) L (map p vals)"
  by (induction vals) (simp_all add: Let_def split: option.splits prod.splits)

text \<open>
  C9, as the code has it. The router tests one address for each collected header value:
  the one the address extractor returns for the whole value, when it is not empty. The
  result depends on the values only through these addresses, and there are never more
  candidates than header values.
\<close>

theorem route_one_address_per_value:
  "candidates p (v # vals) = (if p v = [] then [] else [p v]) @ candidates p vals \<and>
   length (candidates p vals) \<le> length vals \<and>
   route p L vals = route (\<lambda>a. a) L (map p vals) \<and>
   route p L vals =
     List.find (\<lambda>m. fst m \<in> set L) (List.map_filter lre_match (candidates p vals))"
proof (intro conjI)
  show "candidates p (v # vals) = (if p v = [] then [] else [p v]) @ candidates p vals"
    by (simp add: candidates_def)
  show "length (candidates p vals) \<le> length vals"
    unfolding candidates_def using length_filter_le [of _ "map p vals"] by simp
  show "route p L vals = route (\<lambda>a. a) L (map p vals)"
    by (rule route_map)
  show "route p L vals =
     List.find (\<lambda>m. fst m \<in> set L) (List.map_filter lre_match (candidates p vals))"
    by (rule route_find)
qed

theorem route_one_address_per_value_counterexample:
  "candidates parseaddr_first
     (header_vals [(''Delivered-To'', ''other@example.com, mylist@example.com'')]) =
     [''other@example.com''] \<and>
   candidates parseaddr_strict
     (header_vals [(''Delivered-To'', ''other@example.com, mylist@example.com'')]) = [] \<and>
   lre_match ''mylist@example.com'' = Some (''mylist'', None) \<and>
   route parseaddr_first [''mylist'']
     (header_vals [(''Delivered-To'', ''other@example.com, mylist@example.com'')]) = None \<and>
   route parseaddr_strict [''mylist'']
     (header_vals [(''Delivered-To'', ''other@example.com, mylist@example.com'')]) = None"
  by (simp add: run_defs candidates_def)

section \<open>Letter case\<close>

lemma lower_char_idem: "lower_char (lower_char c) = lower_char c"
  by (auto simp add: lower_char_def split: option.splits if_splits)

lemma match_alternatives_token:
  "match_alternatives toks s = Some t \<Longrightarrow> \<exists>tok \<in> set toks. lower_str t = lower_str tok"
  by (induction toks) (auto simp add: match_literal_def split: if_splits)

lemma match_listname_token:
  "match_listname acc s = Some (l, Some t) \<Longrightarrow> lower_str t \<in> set subq_tokens"
proof (induction acc s rule: match_listname.induct)
  case (1 acc)
  then show ?case by simp
next
  case (2 acc c r)
  show ?case
  proof (cases "match_tail (c # r)")
    case None
    with 2 show ?thesis by (simp split: if_splits)
  next
    case (Some sq)
    with "2.prems" have "match_tail (c # r) = Some (Some t)" by simp
    then have "match_alternatives subq_tokens r = Some t"
      by (simp add: match_tail_def split: if_splits option.splits)
    from match_alternatives_token [OF this] obtain tok where
      tok: "tok \<in> set subq_tokens" "lower_str t = lower_str tok" by blast
    from tok(1) have "lower_str tok = tok"
      by (auto simp add: subq_tokens_def lower_str_def lower_char_def)
    with tok show ?thesis by simp
  qed
qed

text \<open>
  The token the pattern captures is one of the nine once it is put in lower case, and the
  selector knows every such token: only the letter case of the captured text can lead to
  the last branch of the selector.
\<close>

lemma lre_match_token:
  assumes "lre_match s = Some (l, Some t)"
  shows "lower_str t \<in> set subq_tokens" and "select c l (Some (lower_str t)) \<noteq> None"
proof -
  from assms show tok: "lower_str t \<in> set subq_tokens"
    by (auto simp add: lre_match_def split: list.splits if_splits dest: match_listname_token)
  with select_defined [of c l "Some (lower_str t)"]
  show "select c l (Some (lower_str t)) \<noteq> None"
    by blast
qed

text \<open>
  C5, evaluated. With the list \<open>mylist\<close>, the address in lower case goes to the bounce
  queue; with the token in upper case the pattern matches and captures \<open>BOUNCES\<close>, for
  which the selector has no branch; with the list name in upper case the captured name is
  not in the list of names and there is no route.
\<close>

theorem route_letter_case:
  "route parseaddr_first [''mylist''] [''mylist-bounces@example.com''] =
     Some (''mylist'', Some ''bounces'') \<and>
   select cfg0 ''mylist'' (Some ''bounces'') = Some (''q/bounces'', [''listname'' \<mapsto> VStr ''mylist'']) \<and>
   route parseaddr_first [''mylist''] [''mylist-BOUNCES@example.com''] =
     Some (''mylist'', Some ''BOUNCES'') \<and>
   select cfg0 ''mylist'' (Some ''BOUNCES'') = None \<and>
   route parseaddr_first [''mylist''] [''MYLIST-bounces@example.com''] = None"
  by (simp add: run_defs)

text \<open>
  C7, evaluated. A file whose message is for \<open>mylist-BOUNCES@example.com\<close> is matched by
  the pattern, reaches the last branch of the selector, and is quarantined with the log
  entry of that branch; nothing is enqueued.
\<close>

theorem unknown_subqueue_reached:
  "lre_match ''mylist-BOUNCES@example.com'' = Some (''mylist'', Some ''BOUNCES'') \<and>
   log (final_world (process_file ev0 [''mylist''] ''m1''
          (w_files [(''m1'', ''mylist-BOUNCES@example.com'')]))) =
     [(''error'', ''Unknown sub-queue: %s'', [S ''BOUNCES''])] \<and>
   queues (final_world (process_file ev0 [''mylist''] ''m1''
          (w_files [(''m1'', ''mylist-BOUNCES@example.com'')]))) = [] \<and>
   file_states ev0 (final_world (process_file ev0 [''mylist''] ''m1''
          (w_files [(''m1'', ''mylist-BOUNCES@example.com'')]))) ''m1'' = [Quarantined]"
  by (simp add: run_defs file_states_def present_states_def)

section \<open>The claim\<close>

lemma os_rename_calls:
  "os_rename ev src dst w = (r, w') \<Longrightarrow> calls w' = calls w @ [Rename src dst]"
  by (cases r) (auto dest: os_rename_failed os_rename_done(4))

lemma os_unlink_calls:
  "os_unlink ev p w = (r, w') \<Longrightarrow> calls w' = calls w @ [Unlink p]"
  by (cases r) (auto dest: os_unlink_failed os_unlink_done(4))

lemma enqueue_calls:
  "enqueue ev q msg md w = (r, w') \<Longrightarrow> calls w' = calls w @ [Enqueue q]"
  by (cases r) (auto dest: enqueue_failed enqueue_done)

lemma claim_calls_simps [simp]:
  "claim_calls ev f [] = []"
  "claim_calls ev f (cs @ ds) = claim_calls ev f cs @ claim_calls ev f ds"
  "claim_calls ev f (Open p # cs) = claim_calls ev f cs"
  "claim_calls ev f (Unlink p # cs) = claim_calls ev f cs"
  "claim_calls ev f (Enqueue q # cs) = claim_calls ev f cs"
  "claim_calls ev f (Listdir d # cs) = claim_calls ev f cs"
  "claim_calls ev f (Rename src dst # cs) =
     (if src = srcname ev f then Rename src dst # claim_calls ev f cs else claim_calls ev f cs)"
  by (simp_all add: claim_calls_def)

lemma process_claimed_claim_calls:
  "\<exists>cs. calls (final_world (process_claimed ev L f w)) = calls w @ cs \<and> claim_calls ev f cs = []"
proof -
  note d = file_paths_distinct [of ev f] file_paths_distinct [of ev f, symmetric]
  obtain r w1 where l: "load_message ev (dstname ev f) w = (r, w1)"
    by (cases "load_message ev (dstname ev f) w")
  then have w1: "w1 = tick (Open (dstname ev f)) w"
    by (rule load_message_world)
  have quarantine: "\<exists>cs. calls w2 = calls w @ cs \<and> claim_calls ev f cs = []"
    if "os_rename ev (dstname ev f) (xdstname ev f) (syslog n fmt a w1) = (x, w2)"
    for n fmt a x w2
    using os_rename_calls [OF that] d unfolding w1 by simp
  show ?thesis
  proof (cases r)
    case (Inl e)
    with l w1 show ?thesis
      by (simp add: process_claimed_def)
  next
    case (Inr msg)
    show ?thesis
    proof (cases "route (parseaddr ev) L (header_vals msg)")
      case None
      obtain x w2 where q: "os_rename ev (dstname ev f) (xdstname ev f)
            (syslog ''error'' ''Message apparently not for any list: %s''
               [S (path_str (xdstname ev f))] w1) = (x, w2)"
        by (cases "os_rename ev (dstname ev f) (xdstname ev f)
            (syslog ''error'' ''Message apparently not for any list: %s''
               [S (path_str (xdstname ev f))] w1)")
      from quarantine [OF q] l Inr None q show ?thesis
        by (cases x) (simp_all add: process_claimed_def)
    next
      case (Some m)
      obtain listname subq where m: "m = (listname, subq)" by (cases m)
      show ?thesis
      proof (cases "select (cfg ev) listname subq")
        case None
        obtain x w2 where q: "os_rename ev (dstname ev f) (xdstname ev f)
              (syslog ''error'' ''Unknown sub-queue: %s''
                 [S (case subq of Some t \<Rightarrow> t | None \<Rightarrow> ''None'')] w1) = (x, w2)"
          by (cases "os_rename ev (dstname ev f) (xdstname ev f)
              (syslog ''error'' ''Unknown sub-queue: %s''
                 [S (case subq of Some t \<Rightarrow> t | None \<Rightarrow> ''None'')] w1)")
        from quarantine [OF q] l Inr Some m None q show ?thesis
          by (cases x) (simp_all add: process_claimed_def)
      next
        case sel: (Some qm)
        obtain qdir md where qm: "qm = (qdir, md)" by (cases qm)
        obtain x w2 where e: "enqueue ev qdir msg md w1 = (x, w2)"
          by (cases "enqueue ev qdir msg md w1")
        note c2 = enqueue_calls [OF e]
        show ?thesis
        proof (cases x)
          case (Some err)
          with l Inr \<open>route (parseaddr ev) L (header_vals msg) = Some m\<close> m sel qm e c2 w1
          show ?thesis by (simp add: process_claimed_def)
        next
          case None
          obtain y w3 where u: "os_unlink ev (dstname ev f) w2 = (y, w3)"
            by (cases "os_unlink ev (dstname ev f) w2")
          note c3 = os_unlink_calls [OF u]
          from l Inr \<open>route (parseaddr ev) L (header_vals msg) = Some m\<close> m sel qm e None u c2 c3 w1
          show ?thesis
            by (cases y) (simp_all add: process_claimed_def)
        qed
      qed
    qed
  qed
qed

lemma process_file_claimed:
  assumes claimed: "os_rename ev (srcname ev f) (dstname ev f) w = (None, w1)"
  shows "process_file ev L f w = Inr (final_world (process_file ev L f w))"
    and "final_world (process_file ev L f w) =
           (case process_claimed ev L f w1 of
              Inl (e, w2) \<Rightarrow> handle_failure ev f e w2
            | Inr w2 \<Rightarrow> w2)"
    and "lookup_file (final_world (process_file ev L f w)) (srcname ev f) = None"
proof -
  note d = file_paths_distinct [of ev f] file_paths_distinct [of ev f, symmetric]
  let ?w' = "final_world (process_file ev L f w)"
  from claimed show ret: "process_file ev L f w = Inr ?w'"
    by (simp add: process_file_def split: sum.splits prod.splits)
  from claimed show fin: "?w' =
           (case process_claimed ev L f w1 of
              Inl (e, w2) \<Rightarrow> handle_failure ev f e w2
            | Inr w2 \<Rightarrow> w2)"
    by (simp add: process_file_def split: sum.splits prod.splits)
  from os_rename_done(1) [OF claimed] obtain data where
    l1: "lookup_file w1 = (lookup_file w)(srcname ev f := None, dstname ev f \<mapsto> data)"
    by blast
  have cur: "dirs w1 (dir_cur ev) \<noteq> None"
    using os_rename_done(6) [OF claimed] os_rename_done(7) [OF claimed, of "dir_cur ev"]
    by (simp add: dstname_def os_path_join_def)
  show "lookup_file ?w' (srcname ev f) = None"
  proof (cases "process_claimed ev L f w1")
    case (Inl x)
    obtain e w2 where x: "x = (e, w2)" by (cases x)
    from process_claimed_raises(1,3) [OF Inl [unfolded x]] l1 cur
    have at: "lookup_file w2 (dstname ev f) = Some data" "dirs w2 (dir_cur ev) \<noteq> None"
      and l2: "lookup_file w2 = lookup_file w1" by simp_all
    from handle_failure_effect(1) [OF at, of e] l2 l1 d Inl x fin show ?thesis
      by auto
  next
    case (Inr w2)
    from process_claimed_returns(1) [OF Inr] l1 d Inr fin show ?thesis
      by auto
  qed
qed

text \<open>
  C3. A turn of the loop makes exactly one rename out of \<^verbatim>\<open>new/file\<close>, first of all its
  calls, and its target is \<^verbatim>\<open>cur/file:1,P\<close>. When the rename succeeds the file is at the
  target and no longer in \<^verbatim>\<open>new/\<close>, nothing is logged yet, the turn goes on with the
  claimed file and never raises, and the file is not in \<^verbatim>\<open>new/\<close> when the turn ends. When
  it fails with \<^verbatim>\<open>ENOENT\<close> the loop goes on with the next file, and nothing but the
  rename call has happened: no log entry, no change on disk or in the queues. When it fails
  with another errno the pass ends there with that \<^verbatim>\<open>OSError\<close>, after one log entry,
  whatever files were still to come.
\<close>

theorem claim_rename:
  "srcname ev f = (dir_new ev, f) \<and> dstname ev f = (dir_cur ev, f @ '':1,P'') \<and>
   (\<exists>cs. calls (final_world (process_file ev listnames f w)) =
           calls w @ Rename (srcname ev f) (dstname ev f) # cs \<and> claim_calls ev f cs = []) \<and>
   (os_rename ev (srcname ev f) (dstname ev f) w = (None, w1) \<longrightarrow>
      (\<exists>data. lookup_file w (srcname ev f) = Some data \<and>
         lookup_file w1 = (lookup_file w)(srcname ev f := None, dstname ev f \<mapsto> data)) \<and>
      calls w1 = calls w @ [Rename (srcname ev f) (dstname ev f)] \<and>
      log w1 = log w \<and> queues w1 = queues w \<and>
      process_file ev listnames f w =
        Inr (case process_claimed ev listnames f w1 of
               Inl (e, w2) \<Rightarrow> handle_failure ev f e w2
             | Inr w2 \<Rightarrow> w2) \<and>
      lookup_file (final_world (process_file ev listnames f w)) (srcname ev f) = None) \<and>
   (os_rename ev (srcname ev f) (dstname ev f) w = (Some ENOENT, w1) \<longrightarrow>
      w1 = tick (Rename (srcname ev f) (dstname ev f)) w \<and>
      process_files ev listnames (f # fs) w = process_files ev listnames fs w1) \<and>
   (os_rename ev (srcname ev f) (dstname ev f) w = (Some (EOTHER n), w1) \<longrightarrow>
      w1 = tick (Rename (srcname ev f) (dstname ev f)) w \<and>
      process_files ev listnames (f # fs) w =
        Inl (OSError (EOTHER n),
             syslog ''error'' ''Could not rename maildir file: %s''
               [S (path_str (srcname ev f))] w1) \<and>
      oneloop_files ev listnames (f # fs) w =
        Inl (OSError (EOTHER n),
             syslog ''error'' ''Could not rename maildir file: %s''
               [S (path_str (srcname ev f))] w1))"
proof (intro conjI impI)
  show "srcname ev f = (dir_new ev, f)"
    by (simp add: srcname_def os_path_join_def)
  show "dstname ev f = (dir_cur ev, f @ '':1,P'')"
    by (simp add: dstname_def os_path_join_def)
  show "\<exists>cs. calls (final_world (process_file ev listnames f w)) =
           calls w @ Rename (srcname ev f) (dstname ev f) # cs \<and> claim_calls ev f cs = []"
  proof -
    let ?w' = "final_world (process_file ev listnames f w)"
    obtain r w1 where ren: "os_rename ev (srcname ev f) (dstname ev f) w = (r, w1)"
      by (cases "os_rename ev (srcname ev f) (dstname ev f) w")
    note c1 = os_rename_calls [OF ren]
    show ?thesis
    proof (cases r)
      case (Some e)
      with ren c1 show ?thesis by (simp add: process_file_def)
    next
      case None
      with ren have claimed: "os_rename ev (srcname ev f) (dstname ev f) w = (None, w1)" by simp
      note fin = process_file_claimed(2) [OF claimed, of listnames]
      from process_claimed_claim_calls [of ev listnames f w1] obtain cs where
        cs: "calls (final_world (process_claimed ev listnames f w1)) = calls w1 @ cs"
          "claim_calls ev f cs = []"
        by blast
      show ?thesis
      proof (cases "process_claimed ev listnames f w1")
        case (Inl x)
        obtain e w2 where x: "x = (e, w2)" by (cases x)
        from Inl x cs fin c1 file_paths_distinct [of ev f, symmetric] show ?thesis
          by (simp add: handle_failure_calls)
      next
        case (Inr w2)
        with cs fin c1 show ?thesis by simp
      qed
    qed
  qed
next
  assume claimed: "os_rename ev (srcname ev f) (dstname ev f) w = (None, w1)"
  from os_rename_done(1) [OF claimed]
  show "\<exists>data. lookup_file w (srcname ev f) = Some data \<and>
         lookup_file w1 = (lookup_file w)(srcname ev f := None, dstname ev f \<mapsto> data)" .
  from os_rename_done(2,3,4) [OF claimed]
  show "calls w1 = calls w @ [Rename (srcname ev f) (dstname ev f)]"
    and "log w1 = log w" and "queues w1 = queues w" by simp_all
  from process_file_claimed(1,2) [OF claimed, of listnames]
  show "process_file ev listnames f w =
        Inr (case process_claimed ev listnames f w1 of
               Inl (e, w2) \<Rightarrow> handle_failure ev f e w2
             | Inr w2 \<Rightarrow> w2)"
    by simp
  show "lookup_file (final_world (process_file ev listnames f w)) (srcname ev f) = None"
    by (rule process_file_claimed(3) [OF claimed])
next
  assume r: "os_rename ev (srcname ev f) (dstname ev f) w = (Some ENOENT, w1)"
  then show "w1 = tick (Rename (srcname ev f) (dstname ev f)) w"
    by (rule os_rename_failed)
  from r show "process_files ev listnames (f # fs) w = process_files ev listnames fs w1"
    by (simp add: process_file_def)
next
  assume r: "os_rename ev (srcname ev f) (dstname ev f) w = (Some (EOTHER n), w1)"
  then show "w1 = tick (Rename (srcname ev f) (dstname ev f)) w"
    by (rule os_rename_failed)
  from r show pf: "process_files ev listnames (f # fs) w =
        Inl (OSError (EOTHER n),
             syslog ''error'' ''Could not rename maildir file: %s''
               [S (path_str (srcname ev f))] w1)"
    by (simp add: process_file_def)
  then show "oneloop_files ev listnames (f # fs) w =
        Inl (OSError (EOTHER n),
             syslog ''error'' ''Could not rename maildir file: %s''
               [S (path_str (srcname ev f))] w1)"
    by (simp only: oneloop_files_def sum.case)
qed

lemma rename_gone:
  "os_rename ev0 (srcname ev0 ''gone'') (dstname ev0 ''gone'') (w_files [(''m1'', ''mylist@example.com'')]) =
     (Some ENOENT, tick (Rename (srcname ev0 ''gone'') (dstname ev0 ''gone'')) (w_files [(''m1'', ''mylist@example.com'')]))"
  by (simp add: os_rename_def ev0_def cfg0_def w_files_def srcname_def dstname_def dir_new_def
      dir_cur_def os_path_join_def os_path_join_str_def lookup_file_def clock_def)

lemma rename_refused:
  "os_rename ev_claim_fails (srcname ev_claim_fails ''m1'') (dstname ev_claim_fails ''m1'')
      (w_files [(''m1'', ''mylist@example.com'')]) =
     (Some (EOTHER 13), tick (Rename (srcname ev_claim_fails ''m1'') (dstname ev_claim_fails ''m1''))
        (w_files [(''m1'', ''mylist@example.com'')]))"
  by (simp add: os_rename_def ev_claim_fails_def ev0_def cfg0_def w_files_def srcname_def dstname_def dir_new_def
      dir_cur_def os_path_join_def os_path_join_str_def lookup_file_def clock_def)

theorem claim_rename_witness:
  "lookup_file (final_world (process_file ev0 [''mylist''] ''m1''
                  (w_files [(''m1'', ''mylist@example.com'')]))) (''/md/new'', ''m1'') = None \<and>
   (\<exists>cs. calls (final_world (process_file ev0 [''mylist''] ''m1''
                  (w_files [(''m1'', ''mylist@example.com'')]))) =
            Rename (''/md/new'', ''m1'') (''/md/cur'', ''m1:1,P'') # cs \<and>
          claim_calls ev0 ''m1'' cs = []) \<and>
   process_files ev0 [''mylist''] [''gone'', ''m1''] (w_files [(''m1'', ''mylist@example.com'')]) =
     process_files ev0 [''mylist''] [''m1'']
       (tick (Rename (''/md/new'', ''gone'') (''/md/cur'', ''gone:1,P''))
          (w_files [(''m1'', ''mylist@example.com'')])) \<and>
   oneloop_files ev_claim_fails [''mylist''] [''m1'', ''m2''] (w_files [(''m1'', ''mylist@example.com'')]) =
     Inl (OSError (EOTHER 13),
          syslog ''error'' ''Could not rename maildir file: %s'' [S ''/md/new/m1'']
            (tick (Rename (''/md/new'', ''m1'') (''/md/cur'', ''m1:1,P''))
               (w_files [(''m1'', ''mylist@example.com'')])))"
proof -
  have names0: "srcname ev0 ''gone'' = (''/md/new'', ''gone'')"
    "dstname ev0 ''gone'' = (''/md/cur'', ''gone:1,P'')"
    by (simp_all add: srcname_def dstname_def dir_new_def dir_cur_def os_path_join_def
        os_path_join_str_def ev0_def cfg0_def)
  have names1: "srcname ev_claim_fails ''m1'' = (''/md/new'', ''m1'')"
    "dstname ev_claim_fails ''m1'' = (''/md/cur'', ''m1:1,P'')"
    by (simp_all add: srcname_def dstname_def dir_new_def dir_cur_def os_path_join_def
        os_path_join_str_def ev_claim_fails_def ev0_def cfg0_def)
  have p: "path_str (''/md/new'', ''m1'') = ''/md/new/m1''"
    by (simp add: path_str_def os_path_join_str_def)
  from claim_rename [where ev = ev0 and f = "''gone''"
      and w = "w_files [(''m1'', ''mylist@example.com'')]"
      and ?w1.0 = "tick (Rename (srcname ev0 ''gone'') (dstname ev0 ''gone''))
                    (w_files [(''m1'', ''mylist@example.com'')])"
      and listnames = "[''mylist'']" and fs = "[''m1'']"] rename_gone
  have a: "process_files ev0 [''mylist''] [''gone'', ''m1''] (w_files [(''m1'', ''mylist@example.com'')]) =
     process_files ev0 [''mylist''] [''m1'']
       (tick (Rename (srcname ev0 ''gone'') (dstname ev0 ''gone''))
          (w_files [(''m1'', ''mylist@example.com'')]))"
    by blast
  from claim_rename [where ev = ev_claim_fails and f = "''m1''"
      and w = "w_files [(''m1'', ''mylist@example.com'')]" and n = 13
      and ?w1.0 = "tick (Rename (srcname ev_claim_fails ''m1'') (dstname ev_claim_fails ''m1''))
                    (w_files [(''m1'', ''mylist@example.com'')])"
      and listnames = "[''mylist'']" and fs = "[''m2'']"] rename_refused
  have b: "oneloop_files ev_claim_fails [''mylist''] [''m1'', ''m2''] (w_files [(''m1'', ''mylist@example.com'')]) =
     Inl (OSError (EOTHER 13),
          syslog ''error'' ''Could not rename maildir file: %s'' [S (path_str (srcname ev_claim_fails ''m1''))]
            (tick (Rename (srcname ev_claim_fails ''m1'') (dstname ev_claim_fails ''m1''))
               (w_files [(''m1'', ''mylist@example.com'')])))"
    by blast
  let ?W = "w_files [(''m1'', ''mylist@example.com'')]"
  have names2: "srcname ev0 ''m1'' = (''/md/new'', ''m1'')"
    "dstname ev0 ''m1'' = (''/md/cur'', ''m1:1,P'')"
    by (simp_all add: srcname_def dstname_def dir_new_def dir_cur_def os_path_join_def
        os_path_join_str_def ev0_def cfg0_def)
  have claimed: "os_rename ev0 (srcname ev0 ''m1'') (dstname ev0 ''m1'') ?W =
      (None, snd (os_rename ev0 (srcname ev0 ''m1'') (dstname ev0 ''m1'') ?W))"
    by (simp add: run_defs)
  from claim_rename [where ev = ev0 and f = "''m1''" and w = ?W and listnames = "[''mylist'']"
      and ?w1.0 = "snd (os_rename ev0 (srcname ev0 ''m1'') (dstname ev0 ''m1'') ?W)"] claimed
  have c: "lookup_file (final_world (process_file ev0 [''mylist''] ''m1'' ?W)) (srcname ev0 ''m1'') = None"
    and d: "\<exists>cs. calls (final_world (process_file ev0 [''mylist''] ''m1'' ?W)) =
           calls ?W @ Rename (srcname ev0 ''m1'') (dstname ev0 ''m1'') # cs \<and>
           claim_calls ev0 ''m1'' cs = []"
    by blast+
  have "calls ?W = []" by (simp add: w_files_def)
  with d have d': "\<exists>cs. calls (final_world (process_file ev0 [''mylist''] ''m1'' ?W)) =
           Rename (''/md/new'', ''m1'') (''/md/cur'', ''m1:1,P'') # cs \<and>
           claim_calls ev0 ''m1'' cs = []"
    unfolding names2 by simp
  from a b have ab: "process_files ev0 [''mylist''] [''gone'', ''m1''] (w_files [(''m1'', ''mylist@example.com'')]) =
     process_files ev0 [''mylist''] [''m1'']
       (tick (Rename (''/md/new'', ''gone'') (''/md/cur'', ''gone:1,P''))
          (w_files [(''m1'', ''mylist@example.com'')])) \<and>
   oneloop_files ev_claim_fails [''mylist''] [''m1'', ''m2''] (w_files [(''m1'', ''mylist@example.com'')]) =
     Inl (OSError (EOTHER 13),
          syslog ''error'' ''Could not rename maildir file: %s'' [S ''/md/new/m1'']
            (tick (Rename (''/md/new'', ''m1'') (''/md/cur'', ''m1:1,P''))
               (w_files [(''m1'', ''mylist@example.com'')])))"
    by (simp only: names0 names1 p)
  from c [unfolded names2] d' ab show ?thesis by (intro conjI) simp_all
qed

section \<open>What a pass leaves of a listed file\<close>

lemma process_file_leaves_new:
  assumes src: "lookup_file w (srcname ev f) \<noteq> None" and cur: "dirs w (dir_cur ev) \<noteq> None"
    and ret: "process_file ev L f w = Inr w1"
  shows "lookup_file w1 (srcname ev f) = None"
proof -
  obtain r v where ren: "os_rename ev (srcname ev f) (dstname ev f) w = (r, v)"
    by (cases "os_rename ev (srcname ev f) (dstname ev f) w")
  show ?thesis
  proof (cases r)
    case None
    with ren have claimed: "os_rename ev (srcname ev f) (dstname ev f) w = (None, v)" by simp
    from process_file_claimed(3) [OF claimed, of L] ret show ?thesis by simp
  next
    case (Some e)
    show ?thesis
    proof (cases e)
      case ENOENT
      with ren Some have "os_rename ev (srcname ev f) (dstname ev f) w = (Some ENOENT, v)" by simp
      from os_rename_enoent [OF this] src cur show ?thesis
        by (simp add: dstname_def os_path_join_def)
    next
      case (EOTHER n)
      with ren Some ret show ?thesis by (simp add: process_file_def)
    qed
  qed
qed

lemma process_files_leaves_new:
  assumes "f \<in> set fs" and "lookup_file w (srcname ev f) \<noteq> None"
    and "dirs w (dir_cur ev) \<noteq> None" and "process_files ev L fs w = Inr w'"
  shows "lookup_file w' (srcname ev f) = None"
  using assms
proof (induction fs arbitrary: w)
  case Nil
  then show ?case by simp
next
  case (Cons g fs)
  from Cons.prems(4) obtain w1 where step: "process_file ev L g w = Inr w1"
    and rest: "process_files ev L fs w1 = Inr w'"
    by (cases "process_file ev L g w") simp_all
  show ?case
  proof (cases "g = f")
    case True
    with process_file_leaves_new [OF Cons.prems(2,3)] step
    have gone: "lookup_file w1 (srcname ev f) = None" by simp
    from process_files_gone [OF gone, of L fs] rest gone show ?thesis
      by (simp add: present_states_def split: if_splits)
  next
    case False
    with Cons.prems(1) have "f \<in> set fs" by simp
    moreover from process_file_frame [OF False, of "srcname ev f" ev L w] step Cons.prems(2)
    have "lookup_file w1 (srcname ev f) \<noteq> None" by simp
    moreover from process_file_effect(3) [of w1 ev L g w "dir_cur ev"] step Cons.prems(3)
    have "dirs w1 (dir_cur ev) \<noteq> None" by simp
    ultimately show ?thesis using rest by (rule Cons.IH)
  qed
qed

lemma file_states_off_new:
  assumes "length (present_states ev w f) \<le> 1" and "lookup_file w (srcname ev f) = None"
  shows "file_states ev w f \<in> {[Removed], [Quarantined], [InProgress]}"
    and "InProgress \<notin> set (present_states ev w f) \<Longrightarrow>
         file_states ev w f \<in> {[Removed], [Quarantined]}"
  using assms by (auto simp add: file_states_def present_states_def split: if_splits)

lemma listed_when_present:
  assumes "lookup_file w (srcname ev f) \<noteq> None"
  shows "\<exists>es. dirs w (dir_new ev) = Some es \<and> f \<in> set (map fst es)"
proof -
  from assms obtain es where es: "dirs w (dir_new ev) = Some es" and "map_of es f \<noteq> None"
    by (auto simp add: lookup_file_def srcname_def os_path_join_def split: option.splits)
  then have "f \<in> fst ` set es"
    by (simp add: map_of_eq_None_iff)
  with es show ?thesis by simp
qed

text \<open>
  C8, as the code has it. A file that is unclaimed when the loop starts (present in
  \<^verbatim>\<open>new/\<close>, with neither of its two names in \<^verbatim>\<open>cur/\<close>) is, when the loop ends or is
  aborted, in exactly one of the states unclaimed, in-progress, quarantined, removed; it
  is not in-progress when no quarantine rename of the file fails; and if it ends removed,
  it was parsed and its message was put on a queue during the loop. If moreover the file
  is listed, \<^verbatim>\<open>cur/\<close> exists and the loop returns, the file is no longer unclaimed: it is
  removed, quarantined or in-progress, and removed or quarantined when no quarantine rename
  of the file fails. The same holds of a pass that returns. A listed name that is no
  longer in \<^verbatim>\<open>new/\<close> when the loop starts, because another runner has claimed it, is
  left in the state it was found in.
\<close>

theorem pass_file_states:
  "(file_states ev w f = [Unclaimed] \<longrightarrow>
      (\<exists>s. file_states ev (final_world (process_files ev L fs w)) f = [s]) \<and>
      ((\<forall>t. os_fault ev t (Rename (dstname ev f) (xdstname ev f)) = None) \<longrightarrow>
         file_states ev (final_world (process_files ev L fs w)) f \<in>
           {[Unclaimed], [Quarantined], [Removed]}) \<and>
      (file_states ev (final_world (process_files ev L fs w)) f = [Removed] \<longrightarrow>
         (\<exists>data qdir msg md. lookup_file w (srcname ev f) = Some data \<and>
            message_from_binary_file ev data = Inr msg \<and>
            (qdir, msg, md) \<in> set (drop (length (queues w))
                                     (queues (final_world (process_files ev L fs w))))))) \<and>
   (file_states ev w f = [Unclaimed] \<and> f \<in> set fs \<and> dirs w (dir_cur ev) \<noteq> None \<and>
    process_files ev L fs w = Inr w' \<longrightarrow>
      file_states ev w' f \<in> {[Removed], [Quarantined], [InProgress]} \<and>
      ((\<forall>t. os_fault ev t (Rename (dstname ev f) (xdstname ev f)) = None) \<longrightarrow>
         file_states ev w' f \<in> {[Removed], [Quarantined]})) \<and>
   (lookup_file w (srcname ev f) = None \<longrightarrow>
      file_states ev (final_world (process_files ev L fs w)) f = file_states ev w f) \<and>
   (file_states ev w f = [Unclaimed] \<and> dirs w (dir_cur ev) \<noteq> None \<and>
    oneloop ev w = Inr (n, w'') \<longrightarrow>
      file_states ev w'' f \<in> {[Removed], [Quarantined], [InProgress]} \<and>
      ((\<forall>t. os_fault ev t (Rename (dstname ev f) (xdstname ev f)) = None) \<longrightarrow>
         file_states ev w'' f \<in> {[Removed], [Quarantined]}))"
proof -
  let ?nofault = "\<forall>t. os_fault ev t (Rename (dstname ev f) (xdstname ev f)) = None"
  have any_end: "(\<exists>s. file_states ev (final_world (process_files ev L fs w)) f = [s]) \<and>
      (?nofault \<longrightarrow>
         file_states ev (final_world (process_files ev L fs w)) f \<in>
           {[Unclaimed], [Quarantined], [Removed]}) \<and>
      (file_states ev (final_world (process_files ev L fs w)) f = [Removed] \<longrightarrow>
         (\<exists>data qdir msg md. lookup_file w (srcname ev f) = Some data \<and>
            message_from_binary_file ev data = Inr msg \<and>
            (qdir, msg, md) \<in> set (drop (length (queues w))
                                     (queues (final_world (process_files ev L fs w))))))"
    if start: "file_states ev w f = [Unclaimed]"
  proof -
    let ?fin = "final_world (process_files ev L fs w)"
    note u = file_states_unclaimed [OF start]
    from process_files_states [OF u(1), of L fs] u(2)
    have fin: "length (present_states ev ?fin f) \<le> 1"
      and safe: "?nofault \<longrightarrow> InProgress \<notin> set (present_states ev ?fin f)"
      by blast+
    from fin have one: "\<exists>s. file_states ev ?fin f = [s]"
      by (simp add: file_states_single)
    from fin safe file_states_settled [of ev ?fin f]
    have settled: "?nofault \<longrightarrow> file_states ev ?fin f \<in> {[Unclaimed], [Quarantined], [Removed]}"
      by blast
    have removed: "\<exists>data qdir msg md. lookup_file w (srcname ev f) = Some data \<and>
            message_from_binary_file ev data = Inr msg \<and>
            (qdir, msg, md) \<in> set (drop (length (queues w)) (queues ?fin))"
      if "file_states ev ?fin f = [Removed]"
    proof -
      from u(3) obtain data where data: "lookup_file w (srcname ev f) = Some data" by blast
      from that have "present_states ev ?fin f = []"
        by (simp add: file_states_removed)
      from process_files_removed [OF data this] data show ?thesis by blast
    qed
    from one settled removed show ?thesis by blast
  qed
  have returned: "file_states ev v' f \<in> {[Removed], [Quarantined], [InProgress]} \<and>
      (?nofault \<longrightarrow> file_states ev v' f \<in> {[Removed], [Quarantined]})"
    if start: "file_states ev v f = [Unclaimed]" and listed: "f \<in> set gs"
      and cur: "dirs v (dir_cur ev) \<noteq> None" and ret: "process_files ev K gs v = Inr v'"
    for K gs v v'
  proof -
    note u = file_states_unclaimed [OF start]
    from process_files_states [OF u(1), of K gs] u(2) ret
    have fin: "length (present_states ev v' f) \<le> 1"
      and safe: "?nofault \<longrightarrow> InProgress \<notin> set (present_states ev v' f)"
      by simp_all
    from process_files_leaves_new [OF listed u(3) cur ret]
    have off: "lookup_file v' (srcname ev f) = None" .
    from file_states_off_new [OF fin off] safe show ?thesis by blast
  qed
  have lost: "file_states ev (final_world (process_files ev L fs w)) f = file_states ev w f"
    if "lookup_file w (srcname ev f) = None"
    using process_files_gone [OF that, of L fs] by (simp add: file_states_def)
  have pass: "file_states ev w'' f \<in> {[Removed], [Quarantined], [InProgress]} \<and>
      (?nofault \<longrightarrow> file_states ev w'' f \<in> {[Removed], [Quarantined]})"
    if start: "file_states ev w f = [Unclaimed]" and cur: "dirs w (dir_cur ev) \<noteq> None"
      and run: "oneloop ev w = Inr (n, w'')"
  proof -
    note u = file_states_unclaimed [OF start]
    from listed_when_present [OF u(3)] obtain es where
      es: "dirs w (dir_new ev) = Some es" and listed: "f \<in> set (map fst es)" by blast
    let ?w1 = "tick (Listdir (dir_new ev)) w"
    from es run have l: "os_listdir ev (dir_new ev) w = (Inr (map fst es), ?w1)"
      by (auto simp add: oneloop_def os_listdir_def split: option.splits)
    with run have ret: "process_files ev (list_names ev) (map fst es) ?w1 = Inr w''"
      by (simp add: oneloop_def oneloop_files_def split: sum.splits)
    from start have start1: "file_states ev ?w1 f = [Unclaimed]" by simp
    from cur have cur1: "dirs ?w1 (dir_cur ev) \<noteq> None" by simp
    from returned [OF start1 listed cur1 ret] show ?thesis .
  qed
  from any_end returned [of w fs L w'] lost pass show ?thesis by blast
qed

theorem pass_file_states_counterexample:
  "file_states ev_enqueue_fails (w_files [(''m2'', ''mylist@example.com'')]) ''m2'' = [Unclaimed] \<and>
   map_sum fst fst (oneloop ev_enqueue_fails (w_files [(''m2'', ''mylist@example.com'')])) = Inr 1 \<and>
   file_states ev_enqueue_fails
     (final_world (process_files ev_enqueue_fails [''mylist''] [''m2'']
        (tick (Listdir ''/md/new'') (w_files [(''m2'', ''mylist@example.com'')])))) ''m2'' =
     [InProgress] \<and>
   oneloop ev_enqueue_fails (w_files [(''m2'', ''mylist@example.com'')]) =
     oneloop_files ev_enqueue_fails [''mylist''] [''m2'']
       (tick (Listdir ''/md/new'') (w_files [(''m2'', ''mylist@example.com'')]))"
  by (simp add: run_defs file_states_def present_states_def)

theorem pass_file_states_witness:
  "file_states ev0 (w_files [(''m1'', ''someone@othersite.example''),
                            (''m2'', ''mylist-confirm@example.com'')]) ''m2'' = [Unclaimed] \<and>
   file_states ev0
     (final_world (process_files ev0 [''mylist''] [''m1'', ''m2'']
        (w_files [(''m1'', ''someone@othersite.example''),
                  (''m2'', ''mylist-confirm@example.com'')]))) ''m2'' = [Removed] \<and>
   (\<exists>qdir md. (qdir, [(''Delivered-To'', ''mylist-confirm@example.com'')], md) \<in>
      set (queues (final_world (process_files ev0 [''mylist''] [''m1'', ''m2'']
        (w_files [(''m1'', ''someone@othersite.example''),
                  (''m2'', ''mylist-confirm@example.com'')]))))) \<and>
   (\<exists>w'. process_files ev0 [''mylist''] [''m1'', ''m2'']
           (w_files [(''m1'', ''someone@othersite.example''),
                     (''m2'', ''mylist-confirm@example.com'')]) = Inr w' \<and>
         file_states ev0 w' ''m2'' \<in> {[Removed], [Quarantined]}) \<and>
   file_states ev0
     (final_world (process_files ev0 [''mylist''] [''gone'', ''m1'']
        (w_files [(''m1'', ''someone@othersite.example''),
                  (''m2'', ''mylist-confirm@example.com'')]))) ''gone'' =
     file_states ev0 (w_files [(''m1'', ''someone@othersite.example''),
                               (''m2'', ''mylist-confirm@example.com'')]) ''gone'' \<and>
   (\<exists>n w''. oneloop ev0 (w_files [(''m1'', ''someone@othersite.example''),
                                  (''m2'', ''mylist-confirm@example.com'')]) = Inr (n, w'') \<and>
         file_states ev0 w'' ''m1'' \<in> {[Removed], [Quarantined]})"
proof -
  let ?w = "w_files [(''m1'', ''someone@othersite.example''),
                     (''m2'', ''mylist-confirm@example.com'')]"
  let ?fin = "final_world (process_files ev0 [''mylist''] [''m1'', ''m2''] ?w)"
  have start: "file_states ev0 ?w ''m2'' = [Unclaimed]"
    by (simp add: run_defs file_states_def present_states_def)
  have start1: "file_states ev0 ?w ''m1'' = [Unclaimed]"
    by (simp add: run_defs file_states_def present_states_def)
  have nofault: "\<forall>t. os_fault ev0 t (Rename (dstname ev0 f) (xdstname ev0 f)) = None" for f
    by (simp add: ev0_def)
  have cur: "dirs ?w (dir_cur ev0) \<noteq> None"
    by (simp add: run_defs)
  have fin: "file_states ev0 ?fin ''m2'' = [Removed]"
    by (simp add: run_defs file_states_def present_states_def)
  have src: "lookup_file ?w (srcname ev0 ''m2'') = Some ''mylist-confirm@example.com''"
    by (simp add: run_defs)
  have q0: "queues ?w = []"
    by (simp add: w_files_def)
  from pass_file_states [where ev = ev0 and w = ?w and f = "''m2''" and L = "[''mylist'']"
      and fs = "[''m1'', ''m2'']"] start fin
  obtain data qdir msg md where
    a: "lookup_file ?w (srcname ev0 ''m2'') = Some data" and
    b: "message_from_binary_file ev0 data = Inr msg" and
    c: "(qdir, msg, md) \<in> set (drop (length (queues ?w)) (queues ?fin))"
    by blast
  from a src have "data = ''mylist-confirm@example.com''" by simp
  with b have "msg = [(''Delivered-To'', ''mylist-confirm@example.com'')]"
    by (simp add: ev0_def parse_delivered_to_def)
  with c have enq: "\<exists>qdir md. (qdir, [(''Delivered-To'', ''mylist-confirm@example.com'')], md) \<in>
      set (queues ?fin)"
    by (auto dest: in_set_dropD)
  obtain w' where ret: "process_files ev0 [''mylist''] [''m1'', ''m2''] ?w = Inr w'"
    by (cases "process_files ev0 [''mylist''] [''m1'', ''m2''] ?w") (simp_all add: run_defs)
  from pass_file_states [where ev = ev0 and w = ?w and f = "''m2''" and L = "[''mylist'']"
      and fs = "[''m1'', ''m2'']" and w' = w'] start cur ret nofault [of "''m2''"]
  have "file_states ev0 w' ''m2'' \<in> {[Removed], [Quarantined]}"
    by simp
  with ret have listed: "\<exists>w'. process_files ev0 [''mylist''] [''m1'', ''m2''] ?w = Inr w' \<and>
         file_states ev0 w' ''m2'' \<in> {[Removed], [Quarantined]}"
    by blast
  have "lookup_file ?w (srcname ev0 ''gone'') = None"
    by (simp add: run_defs)
  with pass_file_states [where ev = ev0 and w = ?w and f = "''gone''" and L = "[''mylist'']"
      and fs = "[''gone'', ''m1'']"]
  have lost: "file_states ev0 (final_world (process_files ev0 [''mylist''] [''gone'', ''m1''] ?w))
      ''gone'' = file_states ev0 ?w ''gone''"
    by blast
  obtain n w'' where run: "oneloop ev0 ?w = Inr (n, w'')"
    by (cases "oneloop ev0 ?w") (auto simp add: run_defs)
  from pass_file_states [where ev = ev0 and w = ?w and f = "''m1''" and n = n and w'' = w'']
    start1 cur run nofault [of "''m1''"]
  have "file_states ev0 w'' ''m1'' \<in> {[Removed], [Quarantined]}"
    by simp
  with run have pass: "\<exists>n w''. oneloop ev0 ?w = Inr (n, w'') \<and>
         file_states ev0 w'' ''m1'' \<in> {[Removed], [Quarantined]}"
    by blast
  from start fin enq listed lost pass show ?thesis
    by (intro conjI)
qed

theorem failure_after_claim_counterexample:
  "log (final_world (process_file ev_open_quarantine_fail [''mylist''] ''m1''
          (w_files [(''m1'', ''mylist@example.com'')]))) =
     [(''error'', ''Error processing maildir file %s: %s\<newline>Traceback:\<newline>%s'',
       [S ''m1'', E (OSError (EOTHER 13)), Traceback (OSError (EOTHER 13))])] \<and>
   calls (final_world (process_file ev_open_quarantine_fail [''mylist''] ''m1''
          (w_files [(''m1'', ''mylist@example.com'')]))) =
     [Rename (''/md/new'', ''m1'') (''/md/cur'', ''m1:1,P''), Open (''/md/cur'', ''m1:1,P''),
      Rename (''/md/cur'', ''m1:1,P'') (''/md/cur'', ''m1:1,X'')] \<and>
   file_states ev_open_quarantine_fail
     (final_world (process_file ev_open_quarantine_fail [''mylist''] ''m1''
        (w_files [(''m1'', ''mylist@example.com'')])))
     ''m1'' = [InProgress]"
  by (simp add: run_defs file_states_def present_states_def)

theorem failure_after_claim_witness:
  "log (final_world (process_file ev_open_fails [''mylist''] ''m1'' (w_files [(''m1'', ''mylist@example.com'')]))) =
     [(''error'', ''Error processing maildir file %s: %s\<newline>Traceback:\<newline>%s'',
       [S ''m1'', E (OSError (EOTHER 13)), Traceback (OSError (EOTHER 13))])] \<and>
   log (final_world (process_file ev_enqueue_fails [''mylist''] ''m2''
          (w_files [(''m2'', ''mylist@example.com'')]))) =
     [(''error'', ''Error processing maildir file %s: %s\<newline>Traceback:\<newline>%s'',
       [S ''m2'', E (OtherError ''queue full''), Traceback (OtherError ''queue full'')])]"
proof -
  let ?Wa = "w_files [(''m1'', ''mylist@example.com'')]"
  let ?w1a = "snd (os_rename ev_open_fails (srcname ev_open_fails ''m1'') (dstname ev_open_fails ''m1'') ?Wa)"
  let ?w2a = "snd (load_message ev_open_fails (dstname ev_open_fails ''m1'') ?w1a)"
  let ?ea = "OSError (EOTHER 13)"
  have ca: "os_rename ev_open_fails (srcname ev_open_fails ''m1'') (dstname ev_open_fails ''m1'') ?Wa = (None, ?w1a)"
    by (simp add: run_defs)
  have la: "load_message ev_open_fails (dstname ev_open_fails ''m1'') ?w1a = (Inl ?ea, ?w2a)"
    by (simp add: run_defs)
  from failure_after_claim [where ev = ev_open_fails and f = "''m1''" and ?w1.0 = ?w1a and e = ?ea
      and ?w2.0 = ?w2a and L = "[''mylist'']"] la
  have ra: "process_claimed ev_open_fails [''mylist''] ''m1'' ?w1a = Inl (?ea, ?w2a)"
    by blast
  from failure_after_claim [where ev = ev_open_fails and f = "''m1''" and w = ?Wa and ?w1.0 = ?w1a
      and e = ?ea and ?w2.0 = ?w2a and L = "[''mylist'']"] ca ra
  have "process_file ev_open_fails [''mylist''] ''m1'' ?Wa = Inr (handle_failure ev_open_fails ''m1'' ?ea ?w2a)"
    and "log (handle_failure ev_open_fails ''m1'' ?ea ?w2a) =
        log ?w2a @ [(''error'', ''Error processing maildir file %s: %s\<newline>Traceback:\<newline>%s'',
                     [S ''m1'', E ?ea, Traceback ?ea])]"
    by blast+
  moreover have "log ?w2a = []"
    by (simp add: run_defs)
  ultimately have a: "log (final_world (process_file ev_open_fails [''mylist''] ''m1'' ?Wa)) =
     [(''error'', ''Error processing maildir file %s: %s\<newline>Traceback:\<newline>%s'',
       [S ''m1'', E ?ea, Traceback ?ea])]"
    by simp
  let ?E = ev_enqueue_fails
  let ?Wb = "w_files [(''m2'', ''mylist@example.com'')]"
  let ?w1b = "snd (os_rename ?E (srcname ?E ''m2'') (dstname ?E ''m2'') ?Wb)"
  let ?msg = "[(''Delivered-To'', ''mylist@example.com'')]"
  let ?wl = "snd (load_message ?E (dstname ?E ''m2'') ?w1b)"
  let ?md = "[''listname'' \<mapsto> VStr ''mylist'', ''tolist'' \<mapsto> VInt 1]"
  let ?w2b = "snd (enqueue ?E ''q/in'' ?msg ?md ?wl)"
  let ?eb = "OtherError ''queue full''"
  have cb: "os_rename ?E (srcname ?E ''m2'') (dstname ?E ''m2'') ?Wb = (None, ?w1b)"
    by (simp add: run_defs ev_enqueue_fails_def)
  have lb: "load_message ?E (dstname ?E ''m2'') ?w1b = (Inr ?msg, ?wl)"
    by (simp add: run_defs ev_enqueue_fails_def)
  have rb: "route (parseaddr ?E) [''mylist''] (header_vals ?msg) = Some (''mylist'', None)"
    by (simp add: run_defs ev_enqueue_fails_def)
  have sb: "select (cfg ?E) ''mylist'' None = Some (''q/in'', ?md)"
    by (simp add: run_defs ev_enqueue_fails_def)
  have qb: "enqueue ?E ''q/in'' ?msg ?md ?wl = (Some ?eb, ?w2b)"
    by (simp add: enqueue_def ev_enqueue_fails_def)
  from failure_after_claim [where ev = ?E and f = "''m2''" and ?w1.0 = ?w1b and msg = ?msg
      and wl = ?wl and L = "[''mylist'']" and l = "''mylist''" and sq = None and q = "''q/in''"
      and md = ?md and e = ?eb and ?w2.0 = ?w2b] lb rb sb qb
  have raised: "process_claimed ?E [''mylist''] ''m2'' ?w1b = Inl (?eb, ?w2b)"
    by blast
  from failure_after_claim [where ev = ?E and f = "''m2''" and w = ?Wb and ?w1.0 = ?w1b
      and e = ?eb and ?w2.0 = ?w2b and L = "[''mylist'']"] cb raised
  have "process_file ?E [''mylist''] ''m2'' ?Wb = Inr (handle_failure ?E ''m2'' ?eb ?w2b)"
    and "log (handle_failure ?E ''m2'' ?eb ?w2b) =
        log ?w2b @ [(''error'', ''Error processing maildir file %s: %s\<newline>Traceback:\<newline>%s'',
                     [S ''m2'', E ?eb, Traceback ?eb])]"
    by blast+
  moreover have "log ?w2b = []"
    by (simp add: run_defs ev_enqueue_fails_def)
  ultimately have b: "log (final_world (process_file ?E [''mylist''] ''m2'' ?Wb)) =
     [(''error'', ''Error processing maildir file %s: %s\<newline>Traceback:\<newline>%s'',
       [S ''m2'', E ?eb, Traceback ?eb])]"
    by simp
  from a b show ?thesis by (intro conjI)
qed

end
